theory Spec2Isabelle
  imports Main
begin

section \<open>Calendar dates\<close>

text \<open>
  The program handles dates through pandas timestamps and \<^verbatim>\<open>dateutil.relativedelta\<close>.
  Every date that reaches the KPI computation was produced by
  \<^verbatim>\<open>pd.to_datetime(..., format='%d/%m/%Y')\<close>, so it is a calendar day at midnight:
  a year, a month and a day.

  What a timestamp can hold depends on its unit. With nanoseconds (pandas before 3.0) a
  \<^verbatim>\<open>Timestamp\<close> lies between 1677-09-21 00:12:43 and 2262-04-11 23:47:16 and a \<^verbatim>\<open>Timedelta\<close> spans
  at most 106751 days; building a value outside raises \<^verbatim>\<open>OutOfBoundsDatetime\<close>. With a coarser
  unit (pandas 3.0 parses strings to microseconds) every date of the calendar fits. The
  model takes the unit as the parameter \<open>res\<close>.
\<close>

datatype date = Date (dyear: int) (dmonth: int) (dday: int)

definition isleap :: "int \<Rightarrow> bool" where
  \<comment> \<open>\<^verbatim>\<open>calendar.isleap\<close>\<close>
  "isleap year = (year mod 4 = 0 \<and> (year mod 100 \<noteq> 0 \<or> year mod 400 = 0))"

definition monthrange :: "int \<Rightarrow> int \<Rightarrow> int" where
  \<comment> \<open>The number of days of a month, \<^verbatim>\<open>calendar.monthrange(year, month)[1]\<close>. The library
      raises for a month outside 1..12; \<open>shift_months\<close> below never asks for one when its
      date has a month in 1..12 (lemma \<open>shift_month_range\<close>).\<close>
  "monthrange year month =
     (if month = 2 then (if isleap year then 29 else 28)
      else if month = 4 \<or> month = 6 \<or> month = 9 \<or> month = 11 then 30
      else 31)"

definition valid_date :: "date \<Rightarrow> bool" where
  "valid_date d = (1 \<le> dyear d \<and> dyear d \<le> 9999 \<and> 1 \<le> dmonth d \<and> dmonth d \<le> 12
                   \<and> 1 \<le> dday d \<and> dday d \<le> monthrange (dyear d) (dmonth d))"

definition date_less :: "date \<Rightarrow> date \<Rightarrow> bool" where
  \<comment> \<open>\<^verbatim>\<open>dt1 < dt2\<close> on dates: lexicographic on year, month, day.\<close>
  "date_less a b =
     (dyear a < dyear b \<or> (dyear a = dyear b \<and>
        (dmonth a < dmonth b \<or> (dmonth a = dmonth b \<and> dday a < dday b))))"

definition days_before_year :: "int \<Rightarrow> int" where
  "days_before_year year = (let y = year - 1 in y * 365 + y div 4 - y div 100 + y div 400)"

definition days_before_month :: "int \<Rightarrow> int \<Rightarrow> int" where
  "days_before_month year month = sum_list (map (monthrange year) [1..month - 1])"

definition toordinal :: "date \<Rightarrow> int" where
  \<comment> \<open>The proleptic Gregorian ordinal of a date; \<^verbatim>\<open>(a - b).days\<close> is the difference of two.\<close>
  "toordinal d = days_before_year (dyear d) + days_before_month (dyear d) (dmonth d) + dday d"

datatype resolution = Nanosecond | Coarser

datatype error = KeyError "string list" | ValueError | IndexError | AttributeError
  | OutOfBoundsDatetime

definition in_timestamp_range :: "date \<Rightarrow> bool" where
  \<comment> \<open>The days whose midnight a nanosecond timestamp can hold.\<close>
  "in_timestamp_range d = (\<not> date_less d (Date 1677 9 22) \<and> \<not> date_less (Date 2262 4 11) d)"

definition timestamp_ok :: "resolution \<Rightarrow> date \<Rightarrow> bool" where
  "timestamp_ok res d = (res = Coarser \<or> in_timestamp_range d)"

definition timedelta_ok :: "resolution \<Rightarrow> int \<Rightarrow> bool" where
  \<comment> \<open>Whether a difference of so many days fits a \<^verbatim>\<open>Timedelta\<close>.\<close>
  "timedelta_ok res days = (res = Coarser \<or> \<bar>days\<bar> \<le> 106751)"

subsection \<open>\<^verbatim>\<open>relativedelta(dt1, dt2)\<close>\<close>

text \<open>
  The constructor of \<^verbatim>\<open>dateutil.relativedelta\<close> with two dates:
  \<^verbatim>\<open>
  months = (dt1.year - dt2.year) * 12 + (dt1.month - dt2.month)
  self._set_months(months)
  dtm = self.__radd__(dt2)
  if dt1 < dt2:
      compare = operator.gt; increment = 1
  else:
      compare = operator.lt; increment = -1
  while compare(dt1, dtm):
      months += increment
      self._set_months(months)
      dtm = self.__radd__(dt2)
  \<close>
  \<^verbatim>\<open>_set_months\<close> splits a month count into the \<^verbatim>\<open>years\<close> and \<^verbatim>\<open>months\<close> attributes, the
  latter between -11 and 11; the program reads \<^verbatim>\<open>.months\<close> only. \<^verbatim>\<open>__radd__\<close> builds the
  trial date with \<^verbatim>\<open>dt2.replace(year=..., month=..., day=...)\<close>, which on a pandas timestamp
  raises when the date does not fit the unit.
\<close>

record relativedelta =
  rd_years :: int
  rd_months :: int

definition sign :: "int \<Rightarrow> int" where
  "sign x = (if x < 0 then - 1 else 1)"

definition set_months :: "int \<Rightarrow> relativedelta" where
  "set_months months =
     (if \<bar>months\<bar> > 11
      then (let s = sign months in
            \<lparr>rd_years = ((months * s) div 12) * s, rd_months = ((months * s) mod 12) * s\<rparr>)
      else \<lparr>rd_years = 0, rd_months = months\<rparr>)"

definition shift_months :: "relativedelta \<Rightarrow> date \<Rightarrow> date" where
  \<comment> \<open>The year, month and day that \<^verbatim>\<open>relativedelta.__radd__\<close> computes while only \<^verbatim>\<open>years\<close> and
      \<^verbatim>\<open>months\<close> are set: shift the month, carry into the year, clip the day to the length of
      the month reached.\<close>
  "shift_months rd dt =
     (let year = dyear dt + rd_years rd;
          month = dmonth dt;
          (year, month) =
            (if rd_months rd \<noteq> 0
             then (let month = month + rd_months rd in
                   if month > 12 then (year + 1, month - 12)
                   else if month < 1 then (year - 1, month + 12)
                   else (year, month))
             else (year, month))
      in Date year month (min (monthrange year month) (dday dt)))"

definition replace_date :: "resolution \<Rightarrow> date \<Rightarrow> error + date" where
  \<comment> \<open>\<^verbatim>\<open>Timestamp.replace(year=..., month=..., day=...)\<close>\<close>
  "replace_date res d = (if timestamp_ok res d then Inr d else Inl OutOfBoundsDatetime)"

definition radd :: "resolution \<Rightarrow> relativedelta \<Rightarrow> date \<Rightarrow> error + date" where
  "radd res rd dt = replace_date res (shift_months rd dt)"

function adjust_months :: "resolution \<Rightarrow> bool \<Rightarrow> date \<Rightarrow> date \<Rightarrow> int \<Rightarrow> error + int" where
  "adjust_months res gt dt1 dt2 months =
     (case radd res (set_months months) dt2 of
        Inl e \<Rightarrow> Inl e
      | Inr dtm \<Rightarrow>
          if (if gt then date_less dtm dt1 else date_less dt1 dtm)
          then adjust_months res gt dt1 dt2 (months + (if gt then 1 else - 1))
          else Inr months)"
  by pat_completeness auto

definition month_index :: "date \<Rightarrow> int" where
  "month_index d = 12 * dyear d + dmonth d"

lemma set_months_total: "12 * rd_years (set_months n) + rd_months (set_months n) = n"
proof (cases "\<bar>n\<bar> > 11")
  case False
  then show ?thesis by (simp add: set_months_def)
next
  case big: True
  show ?thesis
  proof (cases "n < 0")
    case True
    define q where "q = (- n) div 12"
    define r where "r = (- n) mod 12"
    have "12 * q + r = - n" by (simp add: q_def r_def)
    moreover have "set_months n = \<lparr>rd_years = - q, rd_months = - r\<rparr>"
      using True big by (simp add: set_months_def sign_def Let_def q_def r_def)
    ultimately show ?thesis by simp
  next
    case False
    define q where "q = n div 12"
    define r where "r = n mod 12"
    have "12 * q + r = n" by (simp add: q_def r_def)
    moreover have "set_months n = \<lparr>rd_years = q, rd_months = r\<rparr>"
      using False big by (simp add: set_months_def sign_def Let_def q_def r_def)
    ultimately show ?thesis by simp
  qed
qed

lemma set_months_range: "- 11 \<le> rd_months (set_months n) \<and> rd_months (set_months n) \<le> 11"
proof (cases "\<bar>n\<bar> > 11")
  case False
  then show ?thesis by (auto simp: set_months_def)
next
  case True
  have a: "0 \<le> (- n) mod 12 \<and> (- n) mod 12 < 12" by simp
  have b: "0 \<le> n mod 12 \<and> n mod 12 < 12" by simp
  from True a b show ?thesis
    by (auto simp: set_months_def sign_def Let_def)
qed

lemma shift_index: "month_index (shift_months (set_months n) dt) = month_index dt + n"
  using set_months_total [of n]
  by (simp add: shift_months_def month_index_def Let_def)

lemma shift_month_bounds:
  "min 1 (dmonth dt) \<le> dmonth (shift_months (set_months n) dt)
   \<and> dmonth (shift_months (set_months n) dt) \<le> max 12 (dmonth dt)"
  using set_months_range [of n]
  by (auto simp: shift_months_def Let_def)

lemma shift_month_range:
  "1 \<le> dmonth dt \<Longrightarrow> dmonth dt \<le> 12 \<Longrightarrow>
   1 \<le> dmonth (shift_months (set_months n) dt) \<and> dmonth (shift_months (set_months n) dt) \<le> 12"
  using shift_month_bounds [of dt n] by simp

lemma date_less_year: "date_less a b \<Longrightarrow> dyear a \<le> dyear b"
  by (auto simp: date_less_def)

lemma radd_Inr: "radd res rd dt = Inr d \<Longrightarrow> d = shift_months rd dt"
  by (simp add: radd_def replace_date_def split: if_splits)

termination adjust_months
proof (relation "measure (\<lambda>(res, gt, dt1, dt2, months).
         if gt then nat (12 * dyear dt1 + max 12 (dmonth dt2) + 1 - (month_index dt2 + months))
         else nat (month_index dt2 + months + 1 - (12 * dyear dt1 + min 1 (dmonth dt2))))")
  show "wf (measure (\<lambda>(res, gt, dt1, dt2, months).
         if gt then nat (12 * dyear dt1 + max 12 (dmonth dt2) + 1 - (month_index dt2 + months))
         else nat (month_index dt2 + months + 1 - (12 * dyear dt1 + min 1 (dmonth dt2)))))"
    by simp
next
  fix res :: resolution and gt :: bool and dt1 dt2 dtm :: date and months :: int
  assume r: "radd res (set_months months) dt2 = Inr dtm"
    and c: "if gt then date_less dtm dt1 else date_less dt1 dtm"
  from radd_Inr [OF r] have dtm: "dtm = shift_months (set_months months) dt2" .
  have idx: "12 * dyear dtm + dmonth dtm = month_index dt2 + months"
    using shift_index [of months dt2] by (simp add: month_index_def dtm)
  have bnd: "min 1 (dmonth dt2) \<le> dmonth dtm \<and> dmonth dtm \<le> max 12 (dmonth dt2)"
    unfolding dtm by (rule shift_month_bounds)
  show "((res, gt, dt1, dt2, months + (if gt then 1 else - 1)), (res, gt, dt1, dt2, months))
        \<in> measure (\<lambda>(res, gt, dt1, dt2, months).
         if gt then nat (12 * dyear dt1 + max 12 (dmonth dt2) + 1 - (month_index dt2 + months))
         else nat (month_index dt2 + months + 1 - (12 * dyear dt1 + min 1 (dmonth dt2))))"
  proof (cases gt)
    case True
    with c have "dyear dtm \<le> dyear dt1" by (simp add: date_less_year)
    with idx bnd True show ?thesis by auto
  next
    case False
    with c have "dyear dt1 \<le> dyear dtm" by (simp add: date_less_year)
    with idx bnd False show ?thesis by auto
  qed
qed

declare adjust_months.simps [simp del]

definition relativedelta :: "resolution \<Rightarrow> date \<Rightarrow> date \<Rightarrow> error + relativedelta" where
  "relativedelta res dt1 dt2 =
     (let months = (dyear dt1 - dyear dt2) * 12 + (dmonth dt1 - dmonth dt2)
      in case adjust_months res (date_less dt1 dt2) dt1 dt2 months of
           Inl e \<Rightarrow> Inl e
         | Inr months \<Rightarrow> Inr (set_months months))"

section \<open>Data frames\<close>

text \<open>
  A pandas \<^verbatim>\<open>DataFrame\<close>: the column labels in order, and the rows, each a \<^verbatim>\<open>Series\<close> that
  maps a column label to a cell. A cell is a string as read from the CSV, a timestamp, a
  number, or the missing value (\<^verbatim>\<open>NaN\<close>, \<^verbatim>\<open>None\<close>, \<^verbatim>\<open>NaT\<close>). A row is read only at labels
  of \<open>columns\<close>: every access goes through a check that the label is there.
\<close>

datatype cell = Text string | Stamp date | Num int | NA

record dataframe =
  columns :: "string list"
  rows :: "(string \<Rightarrow> cell) list"

definition getitem :: "dataframe \<Rightarrow> string \<Rightarrow> error + cell list" where
  \<comment> \<open>\<^verbatim>\<open>df[col]\<close>\<close>
  "getitem df col =
     (if col \<in> set (columns df) then Inr (map (\<lambda>r. r col) (rows df)) else Inl (KeyError [col]))"

definition setitem :: "dataframe \<Rightarrow> string \<Rightarrow> cell list \<Rightarrow> dataframe" where
  \<comment> \<open>\<^verbatim>\<open>df[col] = values\<close>: overwrite the column, or append a new one.\<close>
  "setitem df col vals =
     \<lparr>columns = (if col \<in> set (columns df) then columns df else columns df @ [col]),
      rows = map2 (\<lambda>r v. r(col := v)) (rows df) vals\<rparr>"

fun traverse :: "('a \<Rightarrow> error + 'b) \<Rightarrow> 'a list \<Rightarrow> error + 'b list" where
  \<comment> \<open>Applying an \<open>f\<close> that may raise to each element in turn: the first exception ends the call.\<close>
  "traverse f [] = Inr []"
| "traverse f (x # xs) =
     (case f x of Inl e \<Rightarrow> Inl e
      | Inr y \<Rightarrow> (case traverse f xs of Inl e \<Rightarrow> Inl e | Inr ys \<Rightarrow> Inr (y # ys)))"

definition assign_apply ::
  "dataframe \<Rightarrow> string \<Rightarrow> ((string \<Rightarrow> cell) \<Rightarrow> error + cell) \<Rightarrow> error + dataframe" where
  \<comment> \<open>\<^verbatim>\<open>df[col] = df.apply(f, axis=1)\<close>: \<open>f\<close> is applied to the rows in order; if it raises, the
      exception leaves the call and nothing is assigned.\<close>
  "assign_apply df col f =
     (case traverse f (rows df) of Inl e \<Rightarrow> Inl e | Inr vals \<Rightarrow> Inr (setitem df col vals))"

definition convert_column :: "(cell \<Rightarrow> cell) \<Rightarrow> string \<Rightarrow> dataframe \<Rightarrow> error + dataframe" where
  \<comment> \<open>\<^verbatim>\<open>df[col] = conv(df[col])\<close> for an elementwise conversion\<close>
  "convert_column conv col df =
     (case getitem df col of Inl e \<Rightarrow> Inl e | Inr vals \<Rightarrow> Inr (setitem df col (map conv vals)))"

fun convert_columns :: "(cell \<Rightarrow> cell) \<Rightarrow> string list \<Rightarrow> dataframe \<Rightarrow> error + dataframe" where
  \<comment> \<open>\<^verbatim>\<open>for col in cols: df[col] = conv(df[col])\<close>\<close>
  "convert_columns conv [] df = Inr df"
| "convert_columns conv (col # cols) df =
     (case convert_column conv col df of Inl e \<Rightarrow> Inl e | Inr df' \<Rightarrow> convert_columns conv cols df')"

fun keep_first :: "('a \<Rightarrow> 'k) \<Rightarrow> 'k list \<Rightarrow> 'a list \<Rightarrow> 'a list" where
  "keep_first key seen [] = []"
| "keep_first key seen (r # rs) =
     (if key r \<in> set seen then keep_first key seen rs else r # keep_first key (key r # seen) rs)"

definition drop_duplicates :: "dataframe \<Rightarrow> dataframe" where
  \<comment> \<open>\<^verbatim>\<open>df.drop_duplicates()\<close>: rows are compared on all columns, the first of equal rows stays.\<close>
  "drop_duplicates df = df\<lparr>rows := keep_first (\<lambda>r. map r (columns df)) [] (rows df)\<rparr>"

definition melt :: "dataframe \<Rightarrow> string list \<Rightarrow> string list \<Rightarrow> string \<Rightarrow> string \<Rightarrow> error + dataframe" where
  \<comment> \<open>\<^verbatim>\<open>pd.melt(df, id_vars, value_vars, var_name, value_name)\<close>: one block of rows per value
      column, in the order of \<open>value_vars\<close>, each block in the order of the rows.\<close>
  "melt df id_vars value_vars var_name value_name =
     (if value_name \<in> set (columns df) then Inl ValueError
      else if filter (\<lambda>c. c \<notin> set (columns df)) (id_vars @ value_vars) \<noteq> []
      then Inl (KeyError (filter (\<lambda>c. c \<notin> set (columns df)) (id_vars @ value_vars)))
      else Inr \<lparr>columns = id_vars @ [var_name, value_name],
                rows = concat (map (\<lambda>v. map (\<lambda>r. (\<lambda>c. if c \<in> set id_vars then r c else NA)
                                                   (var_name := Text v, value_name := r v))
                                             (rows df))
                                   value_vars)\<rparr>)"

definition select_rows :: "dataframe \<Rightarrow> ((string \<Rightarrow> cell) \<Rightarrow> bool) \<Rightarrow> dataframe" where
  \<comment> \<open>\<^verbatim>\<open>df[mask]\<close> for a mask computed row by row\<close>
  "select_rows df p = df\<lparr>rows := filter p (rows df)\<rparr>"

definition select_columns :: "dataframe \<Rightarrow> string list \<Rightarrow> error + dataframe" where
  \<comment> \<open>\<^verbatim>\<open>df[[c1, ..., cn]]\<close>\<close>
  "select_columns df cols =
     (if filter (\<lambda>c. c \<notin> set (columns df)) cols \<noteq> []
      then Inl (KeyError (filter (\<lambda>c. c \<notin> set (columns df)) cols))
      else Inr \<lparr>columns = cols, rows = map (\<lambda>r c. if c \<in> set cols then r c else NA) (rows df)\<rparr>)"

definition records :: "dataframe \<Rightarrow> cell list list" where
  \<comment> \<open>The rows of a frame as tuples of cells in column order.\<close>
  "records df = map (\<lambda>r. map r (columns df)) (rows df)"

section \<open>Date parsing\<close>

text \<open>
  \<^verbatim>\<open>pd.to_datetime(col, format='%d/%m/%Y', errors='coerce')\<close> matches each string against
  the layout: a day (\<^verbatim>\<open>3[0-1]|[1-2]\d|0[1-9]|[1-9]| [1-9]\<close>), a slash, a month
  (\<^verbatim>\<open>1[0-2]|0[1-9]|[1-9]\<close>), a slash, four digits of year, and nothing after. The three
  numbers must make a calendar date that a timestamp of the unit can hold (with
  nanoseconds, 1677-09-22 to 2262-04-11). Whatever does not parse becomes \<^verbatim>\<open>NaT\<close>.
\<close>

definition digit :: "char \<Rightarrow> bool" where
  "digit c = (48 \<le> (of_char c :: nat) \<and> (of_char c :: nat) \<le> 57)"

definition digit_val :: "char \<Rightarrow> int" where
  "digit_val c = int (of_char c) - 48"

fun split_on :: "char \<Rightarrow> string \<Rightarrow> string list" where
  "split_on sep [] = [[]]"
| "split_on sep (c # cs) =
     (if c = sep then [] # split_on sep cs
      else (case split_on sep cs of [] \<Rightarrow> [[c]] | p # ps \<Rightarrow> (c # p) # ps))"

definition day_field :: "string \<Rightarrow> int option" where
  "day_field s =
     (case s of
        [a] \<Rightarrow> if digit a \<and> a \<noteq> CHR ''0'' then Some (digit_val a) else None
      | [a, b] \<Rightarrow>
          if a = CHR '' '' \<and> digit b \<and> b \<noteq> CHR ''0'' then Some (digit_val b)
          else if digit a \<and> digit b \<and> 1 \<le> 10 * digit_val a + digit_val b
                  \<and> 10 * digit_val a + digit_val b \<le> 31
          then Some (10 * digit_val a + digit_val b) else None
      | _ \<Rightarrow> None)"

definition month_field :: "string \<Rightarrow> int option" where
  "month_field s =
     (case s of
        [a] \<Rightarrow> if digit a \<and> a \<noteq> CHR ''0'' then Some (digit_val a) else None
      | [a, b] \<Rightarrow>
          if digit a \<and> digit b \<and> 1 \<le> 10 * digit_val a + digit_val b
             \<and> 10 * digit_val a + digit_val b \<le> 12
          then Some (10 * digit_val a + digit_val b) else None
      | _ \<Rightarrow> None)"

definition year_field :: "string \<Rightarrow> int option" where
  "year_field s =
     (case s of
        [a, b, c, d] \<Rightarrow>
          if digit a \<and> digit b \<and> digit c \<and> digit d
          then Some (1000 * digit_val a + 100 * digit_val b + 10 * digit_val c + digit_val d)
          else None
      | _ \<Rightarrow> None)"

definition strptime_dmy :: "resolution \<Rightarrow> string \<Rightarrow> date option" where
  "strptime_dmy res s =
     (case split_on CHR ''/'' s of
        [ds, ms, ys] \<Rightarrow>
          (case (day_field ds, month_field ms, year_field ys) of
             (Some d, Some m, Some y) \<Rightarrow>
               if valid_date (Date y m d) \<and> timestamp_ok res (Date y m d)
               then Some (Date y m d) else None
           | _ \<Rightarrow> None)
      | _ \<Rightarrow> None)"

fun to_datetime_dmy :: "resolution \<Rightarrow> cell \<Rightarrow> cell" where
  \<comment> \<open>One element of \<^verbatim>\<open>pd.to_datetime(col, format='%d/%m/%Y', errors='coerce')\<close>. A timestamp
      stays as it is; a number is turned into its decimal string, which has no slash.\<close>
  "to_datetime_dmy res (Text s) = (case strptime_dmy res s of Some d \<Rightarrow> Stamp d | None \<Rightarrow> NA)"
| "to_datetime_dmy res (Stamp d) = Stamp d"
| "to_datetime_dmy res (Num n) = NA"
| "to_datetime_dmy res NA = NA"

fun to_datetime :: "resolution \<Rightarrow> (cell \<Rightarrow> date option) \<Rightarrow> cell \<Rightarrow> cell" where
  \<comment> \<open>One element of \<^verbatim>\<open>pd.to_datetime(col, errors='coerce')\<close>, without a format. What pandas
      infers from a string or a number is the parameter \<open>infer\<close>; a date that the unit
      cannot hold becomes missing; a timestamp and a missing value stay as they are.\<close>
  "to_datetime res infer (Stamp d) = Stamp d"
| "to_datetime res infer NA = NA"
| "to_datetime res infer c =
     (case infer c of Some d \<Rightarrow> (if timestamp_ok res d then Stamp d else NA) | None \<Rightarrow> NA)"

section \<open>The program\<close>

definition date_columns :: "string list" where
  "date_columns = [''Fecha CartaConsulta'', ''FechaAprobacion'', ''FechaVigencia'',
                   ''FechaElegibilidad'', ''FechadePrimerDesembolso'']"

definition py_round_div30 :: "int \<Rightarrow> int" where
  \<comment> \<open>\<^verbatim>\<open>round(days_diff / 30)\<close>: to the nearest integer, a tie to the even one.\<close>
  "py_round_div30 days_diff =
     (let q = days_diff div 30; r = days_diff mod 30
      in if r < 15 then q else if r > 15 then q + 1 else (if even q then q else q + 1))"

definition get_approx_months_diff :: "resolution \<Rightarrow> cell \<Rightarrow> cell \<Rightarrow> error + cell" where
  \<comment> \<open>Both arguments come from columns that \<open>to_datetime_dmy\<close> has converted: each is a
      timestamp or missing. \<^verbatim>\<open>later_date - earlier_date\<close> raises when the difference does not
      fit a \<^verbatim>\<open>Timedelta\<close>.\<close>
  "get_approx_months_diff res later_date earlier_date =
     (case (later_date, earlier_date) of
        (Stamp l, Stamp e) \<Rightarrow>
          if timedelta_ok res (toordinal l - toordinal e)
          then Inr (Num (py_round_div30 (toordinal l - toordinal e)))
          else Inl OutOfBoundsDatetime
      | _ \<Rightarrow> Inr NA)"

definition calculate_kpis :: "resolution \<Rightarrow> dataframe \<Rightarrow> error + dataframe" where
  \<comment> \<open>The function works on the caller's frame in place; the result is that frame.\<close>
  "calculate_kpis res data =
     (case convert_columns (to_datetime_dmy res) date_columns data of
        Inl e \<Rightarrow> Inl e
      | Inr data \<Rightarrow>
     (case assign_apply data ''KPI Aprobacion''
             (\<lambda>x. get_approx_months_diff res (x ''FechaAprobacion'') (x ''Fecha CartaConsulta'')) of
        Inl e \<Rightarrow> Inl e
      | Inr data \<Rightarrow>
     (case assign_apply data ''KPI Vigencia''
             (\<lambda>x. get_approx_months_diff res (x ''FechaVigencia'') (x ''FechaAprobacion'')) of
        Inl e \<Rightarrow> Inl e
      | Inr data \<Rightarrow>
     (case assign_apply data ''KPI Elegibilidad''
             (\<lambda>x. get_approx_months_diff res (x ''FechaElegibilidad'') (x ''FechaVigencia'')) of
        Inl e \<Rightarrow> Inl e
      | Inr data \<Rightarrow>
        assign_apply data ''KPI Primer Desembolso''
             (\<lambda>x. get_approx_months_diff res (x ''FechadePrimerDesembolso'') (x ''FechaElegibilidad''))))))"

definition months_between :: "resolution \<Rightarrow> cell \<Rightarrow> cell \<Rightarrow> error + cell" where
  \<comment> \<open>\<^verbatim>\<open>relativedelta(later, earlier).months if pd.notna(later) and pd.notna(earlier) else None\<close>,
      on cells that \<open>to_datetime\<close> has converted.\<close>
  "months_between res later earlier =
     (case (later, earlier) of
        (Stamp l, Stamp e) \<Rightarrow>
          (case relativedelta res l e of Inl e \<Rightarrow> Inl e | Inr rd \<Rightarrow> Inr (Num (rd_months rd)))
      | _ \<Rightarrow> Inr NA)"

definition compute_kpis ::
  "resolution \<Rightarrow> (cell \<Rightarrow> date option) \<Rightarrow> dataframe \<Rightarrow> error + dataframe" where
  \<comment> \<open>\<^verbatim>\<open>transform_data\<close>, first part: drop the duplicates, convert the date columns, set the
      four KPI columns. \<^verbatim>\<open>drop_duplicates\<close> returns a new frame, so the caller's frame is
      left as it was.\<close>
  "compute_kpis res infer data =
     (case convert_columns (to_datetime res infer) date_columns (drop_duplicates data) of
        Inl e \<Rightarrow> Inl e
      | Inr data \<Rightarrow>
     (case assign_apply data ''KPI Aprobacion''
             (\<lambda>x. months_between res (x ''FechaAprobacion'') (x ''Fecha CartaConsulta'')) of
        Inl e \<Rightarrow> Inl e
      | Inr data \<Rightarrow>
     (case assign_apply data ''KPI Vigencia''
             (\<lambda>x. months_between res (x ''FechaVigencia'') (x ''FechaAprobacion'')) of
        Inl e \<Rightarrow> Inl e
      | Inr data \<Rightarrow>
     (case assign_apply data ''KPI Elegibilidad''
             (\<lambda>x. months_between res (x ''FechaElegibilidad'') (x ''FechaVigencia'')) of
        Inl e \<Rightarrow> Inl e
      | Inr data \<Rightarrow>
        assign_apply data ''KPI Primer Desembolso''
             (\<lambda>x. months_between res (x ''FechadePrimerDesembolso'') (x ''FechaElegibilidad''))))))"

definition id_vars :: "string list" where
  "id_vars = [''IDEtapa'', ''NoEtapa'', ''Pais'', ''EstadoColumnaGOP'', ''Alias'', ''Sector'',
              ''SubSector'', ''Fecha CartaConsulta'', ''FechaAprobacion'', ''FechaVigencia'',
              ''FechaElegibilidad'', ''FechadePrimerDesembolso'']"

definition value_vars :: "string list" where
  "value_vars = [''KPI Aprobacion'', ''KPI Vigencia'', ''KPI Elegibilidad'', ''KPI Primer Desembolso'']"

definition Anio :: string where
  \<comment> \<open>The column label \<^verbatim>\<open>A\<close>, n with tilde (code point 241), \<^verbatim>\<open>o\<close>.\<close>
  "Anio = [CHR ''A'', CHR 0xF1, CHR ''o'']"

definition year_mapping :: "string \<rightharpoonup> string" where
  "year_mapping = map_of
     [(''Aprobacion'', ''FechaAprobacion''),
      (''Vigencia'', ''FechaVigencia''),
      (''Elegibilidad'', ''FechaElegibilidad''),
      (''Primer Desembolso'', ''FechadePrimerDesembolso'')]"

function remove_all :: "string \<Rightarrow> string \<Rightarrow> string" where
  \<comment> \<open>\<^verbatim>\<open>s.replace(pat, '')\<close> for a pattern that is not empty\<close>
  "remove_all pat [] = []"
| "remove_all pat (c # cs) =
     (if pat \<noteq> [] \<and> take (length pat) (c # cs) = pat
      then remove_all pat (drop (length pat) (c # cs))
      else c # remove_all pat cs)"
  by pat_completeness auto
termination
  by (relation "measure (\<lambda>(pat, s). length s)") auto

fun dt_year :: "cell \<Rightarrow> cell" where
  \<comment> \<open>One element of \<^verbatim>\<open>col.dt.year\<close> on a converted column\<close>
  "dt_year (Stamp d) = Num (dyear d)"
| "dt_year c = NA"

definition year_of :: "dataframe \<Rightarrow> cell \<Rightarrow> error + cell" where
  \<comment> \<open>\<^verbatim>\<open>lambda x: data[year_mapping[x.replace('KPI ', '')]].dt.year.iloc[0]\<close>\<close>
  "year_of data x =
     (case x of
        Text name \<Rightarrow>
          (case year_mapping (remove_all ''KPI '' name) of
             None \<Rightarrow> Inl (KeyError [remove_all ''KPI '' name])
           | Some col \<Rightarrow>
               (case getitem data col of
                  Inl e \<Rightarrow> Inl e
                | Inr [] \<Rightarrow> Inl IndexError
                | Inr (v # vs) \<Rightarrow> Inr (dt_year v)))
      | _ \<Rightarrow> Inl AttributeError)"

definition melt_years :: "dataframe \<Rightarrow> error + dataframe" where
  \<comment> \<open>\<^verbatim>\<open>transform_data\<close>, second part: melt the KPI columns into rows and set the year column.\<close>
  "melt_years data =
     (case melt data id_vars value_vars ''Estaciones'' ''KPI'' of
        Inl e \<Rightarrow> Inl e
      | Inr melted_data \<Rightarrow>
          (case traverse (year_of data) (map (\<lambda>r. r ''Estaciones'') (rows melted_data)) of
             Inl e \<Rightarrow> Inl e
           | Inr years \<Rightarrow> Inr (setitem melted_data Anio years)))"

fun notna :: "cell \<Rightarrow> bool" where
  "notna NA = False"
| "notna c = True"

fun ge_zero :: "cell \<Rightarrow> bool" where
  \<comment> \<open>One element of \<^verbatim>\<open>col >= 0\<close>; a missing value compares false.\<close>
  "ge_zero (Num n) = (n \<ge> 0)"
| "ge_zero c = False"

definition output_columns :: "string list" where
  "output_columns = [''IDEtapa'', ''Estaciones'', ''KPI'', Anio, ''NoEtapa'', ''Pais'',
                     ''EstadoColumnaGOP'', ''Alias'', ''Sector'', ''SubSector'']"

definition transform_data ::
  "resolution \<Rightarrow> (cell \<Rightarrow> date option) \<Rightarrow> dataframe \<Rightarrow> error + dataframe" where
  "transform_data res infer data =
     (case compute_kpis res infer data of
        Inl e \<Rightarrow> Inl e
      | Inr data \<Rightarrow>
          (case melt_years data of
             Inl e \<Rightarrow> Inl e
           | Inr melted_data \<Rightarrow>
               select_columns
                 (select_rows melted_data (\<lambda>r. notna (r ''KPI'') \<and> ge_zero (r ''KPI'')))
                 output_columns))"

definition run_pipeline ::
  "resolution \<Rightarrow> (cell \<Rightarrow> date option) \<Rightarrow> dataframe \<Rightarrow> error + dataframe \<times> dataframe" where
  \<comment> \<open>What \<^verbatim>\<open>main\<close> does with the loaded table: \<^verbatim>\<open>data = calculate_kpis(data)\<close>, then
      \<^verbatim>\<open>data_long_format = transform_data(data)\<close>. The result is the table as the calls leave
      it and the long table.\<close>
  "run_pipeline res infer data =
     (case calculate_kpis res data of
        Inl e \<Rightarrow> Inl e
      | Inr data \<Rightarrow>
          (case transform_data res infer data of
             Inl e \<Rightarrow> Inl e
           | Inr data_long_format \<Rightarrow> Inr (data, data_long_format)))"

section \<open>The frame operations, row by row\<close>

text \<open>
  What each step of the program does to a single row. These are the facts the properties
  below are proved from.
\<close>

definition append_new :: "string list \<Rightarrow> string \<Rightarrow> string list" where
  "append_new cols c = (if c \<in> set cols then cols else cols @ [c])"

definition conv_dates :: "(cell \<Rightarrow> cell) \<Rightarrow> (string \<Rightarrow> cell) \<Rightarrow> (string \<Rightarrow> cell)" where
  "conv_dates conv r = (\<lambda>c. if c \<in> set date_columns then conv (r c) else r c)"

definition with_kpis :: "(cell \<Rightarrow> cell \<Rightarrow> cell) \<Rightarrow> (string \<Rightarrow> cell) \<Rightarrow> (string \<Rightarrow> cell)" where
  "with_kpis diff r = r
     (''KPI Aprobacion'' := diff (r ''FechaAprobacion'') (r ''Fecha CartaConsulta''),
      ''KPI Vigencia'' := diff (r ''FechaVigencia'') (r ''FechaAprobacion''),
      ''KPI Elegibilidad'' := diff (r ''FechaElegibilidad'') (r ''FechaVigencia''),
      ''KPI Primer Desembolso'' := diff (r ''FechadePrimerDesembolso'') (r ''FechaElegibilidad''))"

fun value_of :: "error + cell \<Rightarrow> cell" where
  \<comment> \<open>The cell a call returned; used only where the call did not raise.\<close>
  "value_of (Inr c) = c"
| "value_of (Inl e) = NA"

definition row_ok :: "(cell \<Rightarrow> cell \<Rightarrow> error + cell) \<Rightarrow> (string \<Rightarrow> cell) \<Rightarrow> bool" where
  \<comment> \<open>None of the four KPI computations raises on the row.\<close>
  "row_ok diff r =
     (\<not> isl (diff (r ''FechaAprobacion'') (r ''Fecha CartaConsulta''))
    \<and> \<not> isl (diff (r ''FechaVigencia'') (r ''FechaAprobacion''))
    \<and> \<not> isl (diff (r ''FechaElegibilidad'') (r ''FechaVigencia''))
    \<and> \<not> isl (diff (r ''FechadePrimerDesembolso'') (r ''FechaElegibilidad'')))"

lemma map2_fun_upd:
  "map2 (\<lambda>r v. r(col := v)) rs (map f rs) = map (\<lambda>r. r(col := f r)) rs"
  by (induction rs) simp_all

lemma traverse_Inr:
  "(\<And>x. x \<in> set xs \<Longrightarrow> f x = Inr (h x)) \<Longrightarrow> traverse f xs = Inr (map h xs)"
  by (induction xs) simp_all

lemma traverse_uniform:
  assumes "\<And>x e. f x = Inl e \<Longrightarrow> e = E"
  shows "traverse f xs =
           (if \<forall>x\<in>set xs. \<not> isl (f x) then Inr (map (\<lambda>x. value_of (f x)) xs) else Inl E)"
proof (induction xs)
  case Nil
  then show ?case by simp
next
  case (Cons x xs)
  show ?case
  proof (cases "f x")
    case (Inl e)
    with assms [of x e] show ?thesis by simp
  next
    case (Inr c)
    with Cons show ?thesis by simp
  qed
qed

lemma assign_apply_uniform:
  assumes "\<And>r e. f r = Inl e \<Longrightarrow> e = E"
  shows "assign_apply df col f =
           (if \<forall>r\<in>set (rows df). \<not> isl (f r)
            then Inr \<lparr>columns = append_new (columns df) col,
                      rows = map (\<lambda>r. r(col := value_of (f r))) (rows df)\<rparr>
            else Inl E)"
  using map2_fun_upd [of col "rows df" "\<lambda>r. value_of (f r)"]
  by (simp add: assign_apply_def traverse_uniform [of f E, OF assms] setitem_def append_new_def)

lemma convert_column_present:
  "col \<in> set (columns df) \<Longrightarrow>
   convert_column conv col df = Inr \<lparr>columns = columns df, rows = map (\<lambda>r. r(col := conv (r col))) (rows df)\<rparr>"
  using map2_fun_upd [of col "rows df" "\<lambda>r. conv (r col)"]
  by (simp add: convert_column_def getitem_def setitem_def comp_def)

lemma convert_column_missing:
  "col \<notin> set (columns df) \<Longrightarrow> convert_column conv col df = Inl (KeyError [col])"
  by (simp add: convert_column_def getitem_def)

lemma convert_columns_ok:
  "set cols \<subseteq> set (columns df) \<Longrightarrow>
   convert_columns conv cols df =
     Inr \<lparr>columns = columns df, rows = map (\<lambda>r. foldl (\<lambda>r c. r(c := conv (r c))) r cols) (rows df)\<rparr>"
proof (induction cols arbitrary: df)
  case Nil
  then show ?case by simp
next
  case (Cons c cols)
  let ?df' = "\<lparr>columns = columns df, rows = map (\<lambda>r. r(c := conv (r c))) (rows df)\<rparr>"
  from Cons.prems have c: "c \<in> set (columns df)" and rest: "set cols \<subseteq> set (columns ?df')" by simp_all
  show ?case
    using Cons.IH [OF rest] by (simp add: convert_column_present [OF c] comp_def del: fun_upd_apply)
qed

lemma convert_columns_missing:
  "\<not> set cols \<subseteq> set (columns df) \<Longrightarrow>
   \<exists>c. c \<in> set cols \<and> c \<notin> set (columns df) \<and> convert_columns conv cols df = Inl (KeyError [c])"
proof (induction cols arbitrary: df)
  case Nil
  then show ?case by simp
next
  case (Cons c cols)
  show ?case
  proof (cases "c \<in> set (columns df)")
    case False
    then show ?thesis by (auto simp: convert_column_missing)
  next
    case True
    let ?df' = "\<lparr>columns = columns df, rows = map (\<lambda>r. r(c := conv (r c))) (rows df)\<rparr>"
    from True Cons.prems have "\<not> set cols \<subseteq> set (columns ?df')" by simp
    from Cons.IH [OF this] True show ?thesis
      by (auto simp: convert_column_present)
  qed
qed

lemma foldl_date_columns:
  "foldl (\<lambda>r c. r(c := conv (r c))) r date_columns = conv_dates conv r"
  by (rule ext) (simp add: date_columns_def conv_dates_def)

lemma convert_columns_first_missing:
  "\<not> set cols \<subseteq> set (columns df) \<Longrightarrow>
   convert_columns conv cols df = Inl (KeyError [hd (filter (\<lambda>c. c \<notin> set (columns df)) cols)])"
proof (induction cols arbitrary: df)
  case Nil
  then show ?case by simp
next
  case (Cons c cols)
  show ?case
  proof (cases "c \<in> set (columns df)")
    case False
    then show ?thesis by (simp add: convert_column_missing)
  next
    case True
    let ?df' = "\<lparr>columns = columns df, rows = map (\<lambda>r. r(c := conv (r c))) (rows df)\<rparr>"
    from True Cons.prems have "\<not> set cols \<subseteq> set (columns ?df')" by simp
    from Cons.IH [OF this] True show ?thesis
      by (simp add: convert_column_present)
  qed
qed

lemma assign_apply_step:
  assumes uniform: "\<And>a b e. diff a b = Inl e \<Longrightarrow> e = E"
    and keep: "\<And>r. u r l = r l" "\<And>r. u r e = r e"
  shows "assign_apply \<lparr>columns = X, rows = map u rs\<rparr> col (\<lambda>x. diff (x l) (x e)) =
           (if \<forall>r\<in>set rs. \<not> isl (diff (r l) (r e))
            then Inr \<lparr>columns = append_new X col,
                      rows = map (\<lambda>r. (u r)(col := value_of (diff (r l) (r e)))) rs\<rparr>
            else Inl E)"
proof -
  have "\<And>r e'. diff (r l) (r e) = Inl e' \<Longrightarrow> e' = E" by (rule uniform)
  from assign_apply_uniform [of "\<lambda>x. diff (x l) (x e)" E, OF this]
  show ?thesis by (simp add: keep comp_def)
qed

lemma kpi_chain:
  assumes all_errors: "\<forall>a b e. diff a b = Inl e \<longrightarrow> e = E"
  shows "(case assign_apply df ''KPI Aprobacion''
                 (\<lambda>x. diff (x ''FechaAprobacion'') (x ''Fecha CartaConsulta'')) of
            Inl e \<Rightarrow> Inl e
          | Inr data \<Rightarrow>
         (case assign_apply data ''KPI Vigencia''
                 (\<lambda>x. diff (x ''FechaVigencia'') (x ''FechaAprobacion'')) of
            Inl e \<Rightarrow> Inl e
          | Inr data \<Rightarrow>
         (case assign_apply data ''KPI Elegibilidad''
                 (\<lambda>x. diff (x ''FechaElegibilidad'') (x ''FechaVigencia'')) of
            Inl e \<Rightarrow> Inl e
          | Inr data \<Rightarrow>
            assign_apply data ''KPI Primer Desembolso''
                 (\<lambda>x. diff (x ''FechadePrimerDesembolso'') (x ''FechaElegibilidad'')))))
       = (if \<forall>r\<in>set (rows df). row_ok diff r
          then Inr \<lparr>columns = foldl append_new (columns df) value_vars,
                    rows = map (with_kpis (\<lambda>a b. value_of (diff a b))) (rows df)\<rparr>
          else Inl E)"
proof -
  from all_errors have uniform: "\<And>a b e. diff a b = Inl e \<Longrightarrow> e = E" by blast
  define c1 where "c1 \<longleftrightarrow>
    (\<forall>r\<in>set (rows df). \<not> isl (diff (r ''FechaAprobacion'') (r ''Fecha CartaConsulta'')))"
  define c2 where "c2 \<longleftrightarrow>
    (\<forall>r\<in>set (rows df). \<not> isl (diff (r ''FechaVigencia'') (r ''FechaAprobacion'')))"
  define c3 where "c3 \<longleftrightarrow>
    (\<forall>r\<in>set (rows df). \<not> isl (diff (r ''FechaElegibilidad'') (r ''FechaVigencia'')))"
  define c4 where "c4 \<longleftrightarrow>
    (\<forall>r\<in>set (rows df). \<not> isl (diff (r ''FechadePrimerDesembolso'') (r ''FechaElegibilidad'')))"
  define u1 where "u1 = (\<lambda>r::string \<Rightarrow> cell. r(''KPI Aprobacion'' :=
      value_of (diff (r ''FechaAprobacion'') (r ''Fecha CartaConsulta''))))"
  define u2 where "u2 = (\<lambda>r. (u1 r)(''KPI Vigencia'' :=
      value_of (diff (r ''FechaVigencia'') (r ''FechaAprobacion''))))"
  define u3 where "u3 = (\<lambda>r. (u2 r)(''KPI Elegibilidad'' :=
      value_of (diff (r ''FechaElegibilidad'') (r ''FechaVigencia''))))"
  define u4 where "u4 = (\<lambda>r. (u3 r)(''KPI Primer Desembolso'' :=
      value_of (diff (r ''FechadePrimerDesembolso'') (r ''FechaElegibilidad''))))"
  define X1 where "X1 = append_new (columns df) ''KPI Aprobacion''"
  define X2 where "X2 = append_new X1 ''KPI Vigencia''"
  define X3 where "X3 = append_new X2 ''KPI Elegibilidad''"
  define X4 where "X4 = append_new X3 ''KPI Primer Desembolso''"
  have k1: "u1 r ''FechaVigencia'' = r ''FechaVigencia''" "u1 r ''FechaAprobacion'' = r ''FechaAprobacion''"
    "u1 r ''FechaElegibilidad'' = r ''FechaElegibilidad''"
    "u1 r ''FechadePrimerDesembolso'' = r ''FechadePrimerDesembolso''" for r
    by (simp_all add: u1_def)
  have k2: "u2 r ''FechaElegibilidad'' = r ''FechaElegibilidad''" "u2 r ''FechaVigencia'' = r ''FechaVigencia''"
    "u2 r ''FechadePrimerDesembolso'' = r ''FechadePrimerDesembolso''" for r
    by (simp_all add: u2_def k1)
  have k3: "u3 r ''FechadePrimerDesembolso'' = r ''FechadePrimerDesembolso''"
    "u3 r ''FechaElegibilidad'' = r ''FechaElegibilidad''" for r
    by (simp_all add: u3_def k2)
  have "\<And>r e'. diff (r ''FechaAprobacion'') (r ''Fecha CartaConsulta'') = Inl e' \<Longrightarrow> e' = E"
    by (rule uniform)
  from assign_apply_uniform [of "\<lambda>x. diff (x ''FechaAprobacion'') (x ''Fecha CartaConsulta'')" E, OF this]
  have e1: "assign_apply df ''KPI Aprobacion''
              (\<lambda>x. diff (x ''FechaAprobacion'') (x ''Fecha CartaConsulta''))
            = (if c1 then Inr \<lparr>columns = X1, rows = map u1 (rows df)\<rparr> else Inl E)"
    by (simp add: c1_def X1_def u1_def)
  have e2: "assign_apply \<lparr>columns = X1, rows = map u1 (rows df)\<rparr> ''KPI Vigencia''
              (\<lambda>x. diff (x ''FechaVigencia'') (x ''FechaAprobacion''))
            = (if c2 then Inr \<lparr>columns = X2, rows = map u2 (rows df)\<rparr> else Inl E)"
    unfolding c2_def X2_def u2_def by (rule assign_apply_step [where diff = diff and E = E and u = u1
          and l = "''FechaVigencia''" and e = "''FechaAprobacion''", OF uniform k1(1) k1(2)])
  have e3: "assign_apply \<lparr>columns = X2, rows = map u2 (rows df)\<rparr> ''KPI Elegibilidad''
              (\<lambda>x. diff (x ''FechaElegibilidad'') (x ''FechaVigencia''))
            = (if c3 then Inr \<lparr>columns = X3, rows = map u3 (rows df)\<rparr> else Inl E)"
    unfolding c3_def X3_def u3_def by (rule assign_apply_step [where diff = diff and E = E and u = u2
          and l = "''FechaElegibilidad''" and e = "''FechaVigencia''", OF uniform k2(1) k2(2)])
  have e4: "assign_apply \<lparr>columns = X3, rows = map u3 (rows df)\<rparr> ''KPI Primer Desembolso''
              (\<lambda>x. diff (x ''FechadePrimerDesembolso'') (x ''FechaElegibilidad''))
            = (if c4 then Inr \<lparr>columns = X4, rows = map u4 (rows df)\<rparr> else Inl E)"
    unfolding c4_def X4_def u4_def by (rule assign_apply_step [where diff = diff and E = E and u = u3
          and l = "''FechadePrimerDesembolso''" and e = "''FechaElegibilidad''", OF uniform k3(1) k3(2)])
  have X4: "X4 = foldl append_new (columns df) value_vars"
    by (simp add: X4_def X3_def X2_def X1_def value_vars_def)
  have u4: "u4 = with_kpis (\<lambda>a b. value_of (diff a b))"
    by (rule ext) (simp add: u4_def u3_def u2_def u1_def with_kpis_def)
  have all: "(\<forall>r\<in>set (rows df). row_ok diff r) \<longleftrightarrow> c1 \<and> c2 \<and> c3 \<and> c4"
    unfolding c1_def c2_def c3_def c4_def row_ok_def by blast
  show ?thesis
    unfolding all e1
    by (cases c1; cases c2; cases c3; cases c4) (simp_all add: e2 e3 e4 X4 u4)
qed

definition approx_value :: "resolution \<Rightarrow> cell \<Rightarrow> cell \<Rightarrow> cell" where
  "approx_value res a b = value_of (get_approx_months_diff res a b)"

definition months_value :: "resolution \<Rightarrow> cell \<Rightarrow> cell \<Rightarrow> cell" where
  "months_value res a b = value_of (months_between res a b)"

definition norm_row :: "resolution \<Rightarrow> (string \<Rightarrow> cell) \<Rightarrow> (string \<Rightarrow> cell)" where
  "norm_row res r = with_kpis (approx_value res) (conv_dates (to_datetime_dmy res) r)"

definition norm_frame :: "resolution \<Rightarrow> dataframe \<Rightarrow> dataframe" where
  "norm_frame res data = \<lparr>columns = foldl append_new (columns data) value_vars,
                           rows = map (norm_row res) (rows data)\<rparr>"

definition wide_rows ::
  "resolution \<Rightarrow> (cell \<Rightarrow> date option) \<Rightarrow> dataframe \<Rightarrow> (string \<Rightarrow> cell) list" where
  "wide_rows res infer data =
     map (\<lambda>r. with_kpis (months_value res) (conv_dates (to_datetime res infer) r))
         (keep_first (\<lambda>r. map r (columns data)) [] (rows data))"

lemma radd_error: "radd res rd dt = Inl e \<Longrightarrow> e = OutOfBoundsDatetime"
  by (simp add: radd_def replace_date_def split: if_splits)

lemma adjust_months_error:
  "adjust_months res gt dt1 dt2 months = Inl e \<Longrightarrow> e = OutOfBoundsDatetime"
proof (induction res gt dt1 dt2 months rule: adjust_months.induct)
  case (1 res gt dt1 dt2 months)
  show ?case
  proof (cases "radd res (set_months months) dt2")
    case (Inl e')
    with "1.prems" radd_error [OF Inl] show ?thesis
      by (simp add: adjust_months.simps [of res gt dt1 dt2 months])
  next
    case (Inr dtm)
    show ?thesis
    proof (cases "if gt then date_less dtm dt1 else date_less dt1 dtm")
      case True
      have "adjust_months res gt dt1 dt2 months
            = adjust_months res gt dt1 dt2 (months + (if gt then 1 else - 1))"
        using Inr True by (cases gt; subst adjust_months.simps; simp)
      with "1.prems"
      have "adjust_months res gt dt1 dt2 (months + (if gt then 1 else - 1)) = Inl e"
        by simp
      with "1.IH" [OF Inr True] show ?thesis .
    next
      case False
      with "1.prems" Inr show ?thesis
        by (simp add: adjust_months.simps [of res gt dt1 dt2 months])
    qed
  qed
qed

lemma relativedelta_error: "relativedelta res dt1 dt2 = Inl e \<Longrightarrow> e = OutOfBoundsDatetime"
  by (auto simp: relativedelta_def Let_def split: sum.splits dest: adjust_months_error)

lemma months_between_error: "months_between res a b = Inl e \<Longrightarrow> e = OutOfBoundsDatetime"
  by (cases a; cases b)
     (auto simp: months_between_def split: sum.splits dest: relativedelta_error)

lemma get_approx_error: "get_approx_months_diff res a b = Inl e \<Longrightarrow> e = OutOfBoundsDatetime"
  by (cases a; cases b) (simp_all add: get_approx_months_diff_def split: if_splits)

lemma calculate_kpis_eq:
  "calculate_kpis res data =
     (if \<not> set date_columns \<subseteq> set (columns data)
      then Inl (KeyError [hd (filter (\<lambda>c. c \<notin> set (columns data)) date_columns)])
      else if \<forall>r\<in>set (rows data).
                row_ok (get_approx_months_diff res) (conv_dates (to_datetime_dmy res) r)
      then Inr (norm_frame res data)
      else Inl OutOfBoundsDatetime)"
proof (cases "set date_columns \<subseteq> set (columns data)")
  case False
  then show ?thesis
    by (simp add: calculate_kpis_def convert_columns_first_missing)
next
  case True
  have u: "\<forall>a b e. get_approx_months_diff res a b = Inl e \<longrightarrow> e = OutOfBoundsDatetime"
    using get_approx_error by blast
  show ?thesis
    unfolding calculate_kpis_def convert_columns_ok [OF True] foldl_date_columns sum.case
      kpi_chain [of "get_approx_months_diff res" OutOfBoundsDatetime, OF u]
    using True by (simp add: norm_frame_def norm_row_def [abs_def] approx_value_def [abs_def] comp_def)
qed

lemma keep_first_subset: "set (keep_first key seen rs) \<subseteq> set rs"
  by (induction rs arbitrary: seen) auto

lemma keep_first_keys:
  "key ` set (keep_first key seen rs) = key ` set rs - set seen"
  by (induction rs arbitrary: seen) auto

lemma keep_first_distinct:
  "distinct (map key (keep_first key seen rs))"
proof (induction rs arbitrary: seen)
  case Nil
  then show ?case by simp
next
  case (Cons r rs)
  have "key r \<notin> key ` set (keep_first key (key r # seen) rs)"
    by (simp add: keep_first_keys)
  with Cons show ?case by simp
qed

lemma keep_first_drop_later:
  "key r' \<in> set seen \<union> key ` set xs \<Longrightarrow>
   keep_first key seen (xs @ r' # zs) = keep_first key seen (xs @ zs)"
proof (induction xs arbitrary: seen)
  case Nil
  then show ?case by simp
next
  case (Cons x xs)
  show ?case
  proof (cases "key x \<in> set seen")
    case True
    with Cons.prems have "key r' \<in> set seen \<union> key ` set xs" by auto
    from Cons.IH [OF this] True show ?thesis by simp
  next
    case False
    from Cons.prems have "key r' \<in> set (key x # seen) \<union> key ` set xs" by auto
    from Cons.IH [OF this] False show ?thesis by simp
  qed
qed

lemma keep_first_hd: "keep_first key [] (r # rs) = r # keep_first key [key r] rs"
  by simp

lemma keep_first_map:
  "(\<And>r. r \<in> set rs \<Longrightarrow> key' (f r) = key r) \<Longrightarrow>
   keep_first key' seen (map f rs) = map f (keep_first key seen rs)"
  by (induction rs arbitrary: seen) auto

lemma keep_first_id:
  "distinct (map key rs) \<Longrightarrow> set (map key rs) \<inter> set seen = {} \<Longrightarrow> keep_first key seen rs = rs"
  by (induction rs arbitrary: seen) auto

lemma compute_kpis_eq:
  "compute_kpis res infer data =
     (if \<not> set date_columns \<subseteq> set (columns data)
      then Inl (KeyError [hd (filter (\<lambda>c. c \<notin> set (columns data)) date_columns)])
      else if \<forall>r\<in>set (keep_first (\<lambda>r. map r (columns data)) [] (rows data)).
                row_ok (months_between res) (conv_dates (to_datetime res infer) r)
      then Inr \<lparr>columns = foldl append_new (columns data) value_vars,
                rows = wide_rows res infer data\<rparr>
      else Inl OutOfBoundsDatetime)"
proof (cases "set date_columns \<subseteq> set (columns data)")
  case False
  then have "\<not> set date_columns \<subseteq> set (columns (drop_duplicates data))"
    by (simp add: drop_duplicates_def)
  from convert_columns_first_missing [OF this, of "to_datetime res infer"] False
  show ?thesis
    by (simp add: compute_kpis_def drop_duplicates_def)
next
  case True
  then have d: "set date_columns \<subseteq> set (columns (drop_duplicates data))"
    by (simp add: drop_duplicates_def)
  have u: "\<forall>a b e. months_between res a b = Inl e \<longrightarrow> e = OutOfBoundsDatetime"
    using months_between_error by blast
  show ?thesis
    unfolding compute_kpis_def convert_columns_ok [OF d] foldl_date_columns sum.case
      kpi_chain [of "months_between res" OutOfBoundsDatetime, OF u]
    using True
    by (simp add: wide_rows_def months_value_def [abs_def] comp_def drop_duplicates_def)
qed

definition year_of_first :: "(string \<Rightarrow> cell) \<Rightarrow> string \<Rightarrow> cell" where
  "year_of_first first v =
     (case year_mapping (remove_all ''KPI '' v) of Some col \<Rightarrow> dt_year (first col) | None \<Rightarrow> NA)"

definition long_row :: "(string \<Rightarrow> cell) \<Rightarrow> (string \<Rightarrow> cell) \<Rightarrow> string \<Rightarrow> (string \<Rightarrow> cell)" where
  "long_row first r v =
     (\<lambda>c. if c \<in> set id_vars then r c else NA)
       (''Estaciones'' := Text v, ''KPI'' := r v, Anio := year_of_first first v)"

lemma remove_all_value_vars:
  "remove_all ''KPI '' ''KPI Aprobacion'' = ''Aprobacion''"
  "remove_all ''KPI '' ''KPI Vigencia'' = ''Vigencia''"
  "remove_all ''KPI '' ''KPI Elegibilidad'' = ''Elegibilidad''"
  "remove_all ''KPI '' ''KPI Primer Desembolso'' = ''Primer Desembolso''"
  by simp_all

lemma year_of_first_value_vars:
  "year_of_first first ''KPI Aprobacion'' = dt_year (first ''FechaAprobacion'')"
  "year_of_first first ''KPI Vigencia'' = dt_year (first ''FechaVigencia'')"
  "year_of_first first ''KPI Elegibilidad'' = dt_year (first ''FechaElegibilidad'')"
  "year_of_first first ''KPI Primer Desembolso'' = dt_year (first ''FechadePrimerDesembolso'')"
  by (simp_all add: year_of_first_def remove_all_value_vars year_mapping_def)

lemma value_vars_cases:
  "v \<in> set value_vars \<Longrightarrow>
   v = ''KPI Aprobacion'' \<or> v = ''KPI Vigencia'' \<or> v = ''KPI Elegibilidad'' \<or> v = ''KPI Primer Desembolso''"
  by (simp add: value_vars_def)

lemma id_vars_dates:
  "''FechaAprobacion'' \<in> set id_vars" "''FechaVigencia'' \<in> set id_vars"
  "''FechaElegibilidad'' \<in> set id_vars" "''FechadePrimerDesembolso'' \<in> set id_vars"
  "''Fecha CartaConsulta'' \<in> set id_vars"
  by (simp_all add: id_vars_def)

lemma year_of_value_var:
  assumes v: "v \<in> set value_vars" and cols: "set id_vars \<subseteq> set (columns data)"
    and rs: "rows data = first # rest"
  shows "year_of data (Text v) = Inr (year_of_first first v)"
proof -
  from cols id_vars_dates
  have dates: "''FechaAprobacion'' \<in> set (columns data)" "''FechaVigencia'' \<in> set (columns data)"
    "''FechaElegibilidad'' \<in> set (columns data)" "''FechadePrimerDesembolso'' \<in> set (columns data)"
    by (simp_all add: subset_iff)
  from value_vars_cases [OF v]
  consider "v = ''KPI Aprobacion''" | "v = ''KPI Vigencia''" | "v = ''KPI Elegibilidad''"
    | "v = ''KPI Primer Desembolso''"
    by (elim disjE)
  then show ?thesis
  proof cases
    case 1
    then show ?thesis
      by (simp add: year_of_def year_of_first_value_vars remove_all_value_vars year_mapping_def getitem_def dates rs)
  next
    case 2
    then show ?thesis
      by (simp add: year_of_def year_of_first_value_vars remove_all_value_vars year_mapping_def getitem_def dates rs)
  next
    case 3
    then show ?thesis
      by (simp add: year_of_def year_of_first_value_vars remove_all_value_vars year_mapping_def getitem_def dates rs)
  next
    case 4
    then show ?thesis
      by (simp add: year_of_def year_of_first_value_vars remove_all_value_vars year_mapping_def getitem_def dates rs)
  qed
qed

lemma Anio_not_id: "Anio \<notin> set id_vars" "Anio \<noteq> ''Estaciones''" "Anio \<noteq> ''KPI''"
  by (simp_all add: Anio_def id_vars_def)

lemma melt_ok:
  assumes "set id_vars \<subseteq> set (columns data)" "set value_vars \<subseteq> set (columns data)"
    "''KPI'' \<notin> set (columns data)"
  shows "melt data id_vars value_vars ''Estaciones'' ''KPI'' =
     Inr \<lparr>columns = id_vars @ [''Estaciones'', ''KPI''],
          rows = concat (map (\<lambda>v. map (\<lambda>r. (\<lambda>c. if c \<in> set id_vars then r c else NA)
                                             (''Estaciones'' := Text v, ''KPI'' := r v))
                                       (rows data)) value_vars)\<rparr>"
proof -
  from assms(1,2) have "filter (\<lambda>c. c \<notin> set (columns data)) (id_vars @ value_vars) = []"
    by (auto simp: filter_empty_conv)
  with assms(3) show ?thesis by (simp add: melt_def)
qed

lemma melt_years_ok:
  assumes ids: "set id_vars \<subseteq> set (columns data)" and vals: "set value_vars \<subseteq> set (columns data)"
    and kpi: "''KPI'' \<notin> set (columns data)"
  shows "melt_years data =
     Inr \<lparr>columns = id_vars @ [''Estaciones'', ''KPI'', Anio],
          rows = concat (map (\<lambda>v. map (\<lambda>r. long_row (hd (rows data)) r v) (rows data)) value_vars)\<rparr>"
proof -
  define mk where "mk = (\<lambda>v r. (\<lambda>c. if c \<in> set id_vars then r c else NA)
                                   (''Estaciones'' := Text v, ''KPI'' := r v))"
  define mrows where "mrows = concat (map (\<lambda>v. map (mk v) (rows data)) value_vars)"
  define h where "h = (\<lambda>m. case m ''Estaciones'' of Text v \<Rightarrow> year_of_first (hd (rows data)) v | _ \<Rightarrow> NA)"
  have m: "melt data id_vars value_vars ''Estaciones'' ''KPI'' =
           Inr \<lparr>columns = id_vars @ [''Estaciones'', ''KPI''], rows = mrows\<rparr>"
    unfolding mrows_def mk_def by (rule melt_ok [OF ids vals kpi])
  have yr: "year_of data (m ''Estaciones'') = Inr (h m)" if "m \<in> set mrows" for m
  proof -
    from that obtain v r where v: "v \<in> set value_vars" and r: "r \<in> set (rows data)" and m: "m = mk v r"
      by (auto simp: mrows_def)
    from r obtain first rest where rs: "rows data = first # rest"
      by (cases "rows data") auto
    from year_of_value_var [OF v ids rs] show ?thesis
      by (simp add: m mk_def h_def rs)
  qed
  have tr: "traverse (year_of data) (map (\<lambda>r. r ''Estaciones'') mrows) = Inr (map h mrows)"
    using traverse_Inr [of "map (\<lambda>r. r ''Estaciones'') mrows" "year_of data"
                           "\<lambda>x. (case x of Text v \<Rightarrow> year_of_first (hd (rows data)) v | _ \<Rightarrow> NA)"]
    using yr by (auto simp: h_def comp_def)
  have upd: "map (\<lambda>m. m(Anio := h m)) mrows =
             concat (map (\<lambda>v. map (\<lambda>r. long_row (hd (rows data)) r v) (rows data)) value_vars)"
    by (simp add: mrows_def map_concat comp_def mk_def h_def long_row_def)
  show ?thesis
    unfolding melt_years_def m
    using map2_fun_upd [of Anio mrows h]
    by (simp add: tr setitem_def Anio_not_id upd [symmetric])
qed


definition project :: "string list \<Rightarrow> (string \<Rightarrow> cell) \<Rightarrow> (string \<Rightarrow> cell)" where
  "project cols r = (\<lambda>c. if c \<in> set cols then r c else NA)"

definition emitted :: "(string \<Rightarrow> cell) \<Rightarrow> bool" where
  "emitted r = (notna (r ''KPI'') \<and> ge_zero (r ''KPI''))"

lemma emitted_iff: "emitted r \<longleftrightarrow> (\<exists>n. r ''KPI'' = Num n \<and> 0 \<le> n)"
  by (cases "r ''KPI''") (simp_all add: emitted_def)

lemma set_append_new: "set (foldl append_new cols vs) = set cols \<union> set vs"
  by (induction vs arbitrary: cols) (auto simp: append_new_def)

lemma KPI_not_value_var: "''KPI'' \<notin> set value_vars"
  by (simp add: value_vars_def)

lemma id_vars_not_value_vars: "set id_vars \<inter> set value_vars = {}"
  by (simp add: id_vars_def value_vars_def)

lemma date_columns_id_vars: "set date_columns \<subseteq> set id_vars"
  by (simp add: date_columns_def id_vars_def)

lemma output_columns_melted: "filter (\<lambda>c. c \<notin> set (id_vars @ [''Estaciones'', ''KPI'', Anio])) output_columns = []"
  by (simp add: output_columns_def id_vars_def)

definition long_rows :: "(string \<Rightarrow> cell) list \<Rightarrow> (string \<Rightarrow> cell) list" where
  "long_rows ws = concat (map (\<lambda>v. map (\<lambda>r. long_row (hd ws) r v) ws) value_vars)"

lemma melt_years_long:
  assumes "set id_vars \<subseteq> set (columns data)" "set value_vars \<subseteq> set (columns data)"
    "''KPI'' \<notin> set (columns data)"
  shows "melt_years data =
     Inr \<lparr>columns = id_vars @ [''Estaciones'', ''KPI'', Anio], rows = long_rows (rows data)\<rparr>"
  unfolding long_rows_def by (rule melt_years_ok [OF assms])

lemma melt_years_fails:
  assumes "\<not> (set id_vars \<subseteq> set (columns data) \<and> set value_vars \<subseteq> set (columns data)
              \<and> ''KPI'' \<notin> set (columns data))"
  shows "\<exists>e. melt_years data = Inl e"
proof (cases "''KPI'' \<in> set (columns data)")
  case True
  then show ?thesis by (simp add: melt_years_def melt_def)
next
  case False
  with assms have "filter (\<lambda>c. c \<notin> set (columns data)) (id_vars @ value_vars) \<noteq> []"
    by (auto simp: filter_empty_conv)
  with False show ?thesis by (simp add: melt_years_def melt_def)
qed

lemma long_part:
  fixes ws :: "(string \<Rightarrow> cell) list" and data :: dataframe
  defines "wide \<equiv> \<lparr>columns = foldl append_new (columns data) value_vars, rows = ws\<rparr>"
  shows "(case melt_years wide of
            Inl e \<Rightarrow> Inl e
          | Inr melted_data \<Rightarrow>
              select_columns
                (select_rows melted_data (\<lambda>r. notna (r ''KPI'') \<and> ge_zero (r ''KPI'')))
                output_columns)
       = (if ''KPI'' \<in> set (columns data) then Inl ValueError
          else if \<not> set id_vars \<subseteq> set (columns data)
          then Inl (KeyError (filter (\<lambda>c. c \<notin> set (columns data)) id_vars))
          else Inr \<lparr>columns = output_columns,
                    rows = map (project output_columns) (filter emitted (long_rows ws))\<rparr>)"
proof -
  have kpi: "''KPI'' \<in> set (columns wide) \<longleftrightarrow> ''KPI'' \<in> set (columns data)"
    using KPI_not_value_var by (simp add: wide_def set_append_new)
  have f1: "filter (\<lambda>c. c \<notin> set (columns wide)) value_vars = []"
    by (simp add: wide_def set_append_new filter_empty_conv)
  have f2: "filter (\<lambda>c. c \<notin> set (columns wide)) id_vars = filter (\<lambda>c. c \<notin> set (columns data)) id_vars"
    using id_vars_not_value_vars by (intro filter_cong) (auto simp: wide_def set_append_new)
  show ?thesis
  proof (cases "''KPI'' \<in> set (columns data)")
    case True
    with kpi show ?thesis by (simp add: melt_years_def melt_def)
  next
    case False
    show ?thesis
    proof (cases "set id_vars \<subseteq> set (columns data)")
      case miss: False
      then have "filter (\<lambda>c. c \<notin> set (columns data)) id_vars \<noteq> []"
        by (auto simp: filter_empty_conv)
      with False miss kpi f1 f2 show ?thesis
        by (simp add: melt_years_def melt_def del: set_append)
    next
      case True
      have "set id_vars \<subseteq> set (columns wide)" "set value_vars \<subseteq> set (columns wide)"
        "''KPI'' \<notin> set (columns wide)"
        using True False KPI_not_value_var by (auto simp: wide_def set_append_new)
      from melt_years_long [OF this] have m: "melt_years wide =
          Inr \<lparr>columns = id_vars @ [''Estaciones'', ''KPI'', Anio], rows = long_rows ws\<rparr>"
        by (simp add: wide_def)
      from True False show ?thesis
        by (simp add: m select_rows_def select_columns_def output_columns_melted
              project_def [abs_def] emitted_def [abs_def] del: set_append)
    qed
  qed
qed

lemma transform_data_eq:
  "transform_data res infer data =
     (if \<not> set date_columns \<subseteq> set (columns data)
      then Inl (KeyError [hd (filter (\<lambda>c. c \<notin> set (columns data)) date_columns)])
      else if \<not> (\<forall>r\<in>set (keep_first (\<lambda>r. map r (columns data)) [] (rows data)).
                   row_ok (months_between res) (conv_dates (to_datetime res infer) r))
      then Inl OutOfBoundsDatetime
      else if ''KPI'' \<in> set (columns data) then Inl ValueError
      else if \<not> set id_vars \<subseteq> set (columns data)
      then Inl (KeyError (filter (\<lambda>c. c \<notin> set (columns data)) id_vars))
      else Inr \<lparr>columns = output_columns,
                rows = map (project output_columns)
                           (filter emitted (long_rows (wide_rows res infer data)))\<rparr>)"
  unfolding transform_data_def compute_kpis_eq
  by (simp add: long_part)

lemma to_datetime_after_dmy: "to_datetime res infer (to_datetime_dmy res c) = to_datetime_dmy res c"
  by (cases c) (simp_all split: option.splits)

lemma to_datetime_dmy_idem: "to_datetime_dmy res (to_datetime_dmy res c) = to_datetime_dmy res c"
  by (cases c) (simp_all split: option.splits)

lemma with_kpis_date: "c \<in> set date_columns \<Longrightarrow> with_kpis diff r c = r c"
  by (auto simp: with_kpis_def date_columns_def)

lemma with_kpis_id: "c \<in> set id_vars \<Longrightarrow> with_kpis diff r c = r c"
  by (auto simp: with_kpis_def id_vars_def)

lemma with_kpis_other: "c \<notin> set value_vars \<Longrightarrow> with_kpis diff r c = r c"
  by (auto simp: with_kpis_def value_vars_def)

lemma with_kpis_cong:
  "(\<And>c. c \<in> set date_columns \<Longrightarrow> r c = r' c) \<Longrightarrow> v \<in> set value_vars \<Longrightarrow>
   with_kpis diff r v = with_kpis diff r' v"
  by (auto simp: with_kpis_def value_vars_def date_columns_def)

lemma conv_dates_date: "c \<in> set date_columns \<Longrightarrow> conv_dates conv r c = conv (r c)"
  by (simp add: conv_dates_def)

lemma conv_dates_other: "c \<notin> set date_columns \<Longrightarrow> conv_dates conv r c = r c"
  by (simp add: conv_dates_def)

lemma date_not_value_var: "c \<in> set date_columns \<Longrightarrow> c \<notin> set value_vars"
  by (auto simp: date_columns_def value_vars_def)

lemma row_ok_cong:
  "(\<And>c. c \<in> set date_columns \<Longrightarrow> r c = r' c) \<Longrightarrow> row_ok diff r = row_ok diff r'"
  by (simp add: row_ok_def date_columns_def)

lemma norm_row_dates:
  assumes "c \<in> set date_columns"
  shows "conv_dates (to_datetime res infer) (norm_row res r) c = conv_dates (to_datetime_dmy res) r c"
    and "conv_dates (to_datetime_dmy res) (norm_row res r) c = conv_dates (to_datetime_dmy res) r c"
    and "norm_row res r c = to_datetime_dmy res (r c)"
  using assms
  by (simp_all add: conv_dates_date norm_row_def with_kpis_date to_datetime_after_dmy
        to_datetime_dmy_idem)

lemma row_ok_norm:
  "row_ok diff (conv_dates (to_datetime res infer) (norm_row res r))
     = row_ok diff (conv_dates (to_datetime_dmy res) r)"
  "row_ok diff (conv_dates (to_datetime_dmy res) (norm_row res r))
     = row_ok diff (conv_dates (to_datetime_dmy res) r)"
  by (rule row_ok_cong, simp add: norm_row_dates)+

lemma wide_of_norm:
  "with_kpis diff (conv_dates (to_datetime res infer) (norm_row res r)) =
   with_kpis diff (conv_dates (to_datetime_dmy res) r)"
proof -
  have b: "conv_dates (to_datetime res infer) (norm_row res r) c = conv_dates (to_datetime_dmy res) r c"
    if "c \<notin> set date_columns" "c \<notin> set value_vars" for c
    using that by (simp add: conv_dates_other norm_row_def with_kpis_other)
  show ?thesis
  proof (rule ext)
    fix c
    show "with_kpis diff (conv_dates (to_datetime res infer) (norm_row res r)) c =
          with_kpis diff (conv_dates (to_datetime_dmy res) r) c"
    proof (cases "c \<in> set value_vars")
      case True
      then show ?thesis using norm_row_dates(1) by (rule with_kpis_cong [rotated])
    next
      case False
      with norm_row_dates(1) [of c res infer r] b show ?thesis
        by (cases "c \<in> set date_columns") (simp_all add: with_kpis_other)
    qed
  qed
qed

definition stage_row :: "resolution \<Rightarrow> (string \<Rightarrow> cell) \<Rightarrow> (string \<Rightarrow> cell)" where
  "stage_row res r = with_kpis (months_value res) (conv_dates (to_datetime_dmy res) r)"

definition pipeline_row_ok :: "resolution \<Rightarrow> (string \<Rightarrow> cell) \<Rightarrow> bool" where
  \<comment> \<open>Neither \<^verbatim>\<open>calculate_kpis\<close> nor \<^verbatim>\<open>transform_data\<close> raises on the dates of the row.\<close>
  "pipeline_row_ok res r =
     (row_ok (get_approx_months_diff res) (conv_dates (to_datetime_dmy res) r)
      \<and> row_ok (months_between res) (conv_dates (to_datetime_dmy res) r))"

lemma wide_rows_norm:
  "wide_rows res infer (norm_frame res data) =
   map (stage_row res)
       (keep_first (\<lambda>r. map (norm_row res r) (columns (norm_frame res data))) [] (rows data))"
proof -
  have "keep_first (\<lambda>r. map r (columns (norm_frame res data))) [] (map (norm_row res) (rows data)) =
        map (norm_row res)
            (keep_first (\<lambda>r. map (norm_row res r) (columns (norm_frame res data))) [] (rows data))"
    by (rule keep_first_map) simp
  then show ?thesis
    by (simp add: wide_rows_def norm_frame_def wide_of_norm stage_row_def [abs_def] comp_def)
qed

lemma kept_rows_ok:
  assumes dates: "set date_columns \<subseteq> set (columns data)"
  shows "(\<forall>r\<in>set (keep_first (\<lambda>r. map r (columns (norm_frame res data))) []
                     (rows (norm_frame res data))).
            row_ok diff (conv_dates (to_datetime res infer) r))
       \<longleftrightarrow> (\<forall>r\<in>set (rows data). row_ok diff (conv_dates (to_datetime_dmy res) r))"
proof -
  let ?cols = "columns (norm_frame res data)"
  let ?key = "\<lambda>r. map (norm_row res r) ?cols"
  let ?kept = "keep_first ?key [] (rows data)"
  have k: "keep_first (\<lambda>r. map r ?cols) [] (rows (norm_frame res data)) = map (norm_row res) ?kept"
    using keep_first_map [of "rows data" "\<lambda>r. map r ?cols" "norm_row res" ?key "[]"]
    by (simp add: norm_frame_def)
  have dcols: "set date_columns \<subseteq> set ?cols"
    using dates by (auto simp: norm_frame_def set_append_new)
  have "(\<forall>r\<in>set ?kept. row_ok diff (conv_dates (to_datetime_dmy res) r))
      \<longleftrightarrow> (\<forall>r\<in>set (rows data). row_ok diff (conv_dates (to_datetime_dmy res) r))"
  proof
    assume a: "\<forall>r\<in>set ?kept. row_ok diff (conv_dates (to_datetime_dmy res) r)"
    show "\<forall>r\<in>set (rows data). row_ok diff (conv_dates (to_datetime_dmy res) r)"
    proof
      fix r assume "r \<in> set (rows data)"
      then have "?key r \<in> ?key ` set ?kept" unfolding keep_first_keys by auto
      then obtain r' where r': "r' \<in> set ?kept" and eq: "?key r' = ?key r" by auto
      have "conv_dates (to_datetime_dmy res) r c = conv_dates (to_datetime_dmy res) r' c"
        if c: "c \<in> set date_columns" for c
      proof -
        from c dcols have "c \<in> set ?cols" by blast
        with eq have "norm_row res r' c = norm_row res r c" by (simp add: map_eq_conv)
        with c show ?thesis by (simp add: norm_row_dates(3) conv_dates_date)
      qed
      then have "row_ok diff (conv_dates (to_datetime_dmy res) r)
               = row_ok diff (conv_dates (to_datetime_dmy res) r')"
        by (rule row_ok_cong)
      with a r' show "row_ok diff (conv_dates (to_datetime_dmy res) r)" by simp
    qed
  next
    assume "\<forall>r\<in>set (rows data). row_ok diff (conv_dates (to_datetime_dmy res) r)"
    with keep_first_subset [of ?key "[]" "rows data"]
    show "\<forall>r\<in>set ?kept. row_ok diff (conv_dates (to_datetime_dmy res) r)" by blast
  qed
  then show ?thesis by (simp add: k row_ok_norm)
qed

lemma run_pipeline_eq:
  "run_pipeline res infer data =
     (if \<not> set date_columns \<subseteq> set (columns data)
      then Inl (KeyError [hd (filter (\<lambda>c. c \<notin> set (columns data)) date_columns)])
      else if \<not> (\<forall>r\<in>set (rows data). pipeline_row_ok res r) then Inl OutOfBoundsDatetime
      else if ''KPI'' \<in> set (columns data) then Inl ValueError
      else if \<not> set id_vars \<subseteq> set (columns data)
      then Inl (KeyError (filter (\<lambda>c. c \<notin> set (columns data)) id_vars))
      else Inr (norm_frame res data,
                \<lparr>columns = output_columns,
                 rows = map (project output_columns)
                         (filter emitted (long_rows (wide_rows res infer (norm_frame res data))))\<rparr>))"
proof (cases "set date_columns \<subseteq> set (columns data)")
  case False
  then show ?thesis by (simp add: run_pipeline_def calculate_kpis_eq)
next
  case dates: True
  let ?nf = "norm_frame res data"
  show ?thesis
  proof (cases "\<forall>r\<in>set (rows data).
                   row_ok (get_approx_months_diff res) (conv_dates (to_datetime_dmy res) r)")
    case False
    then have "\<not> (\<forall>r\<in>set (rows data). pipeline_row_ok res r)"
      by (auto simp: pipeline_row_ok_def)
    moreover have "calculate_kpis res data = Inl OutOfBoundsDatetime"
      unfolding calculate_kpis_eq by (simp only: dates False not_True_eq_False if_False)
    ultimately show ?thesis using dates by (simp add: run_pipeline_def)
  next
    case approx: True
    then have calc: "calculate_kpis res data = Inr ?nf"
      using dates by (simp add: calculate_kpis_eq)
    have nd: "set date_columns \<subseteq> set (columns ?nf)"
      using dates by (auto simp: norm_frame_def set_append_new)
    have kpi: "''KPI'' \<in> set (columns ?nf) \<longleftrightarrow> ''KPI'' \<in> set (columns data)"
      using KPI_not_value_var by (simp add: norm_frame_def set_append_new)
    have ids: "set id_vars \<subseteq> set (columns ?nf) \<longleftrightarrow> set id_vars \<subseteq> set (columns data)"
      using id_vars_not_value_vars by (auto simp: norm_frame_def set_append_new)
    have f: "filter (\<lambda>c. c \<notin> set (columns ?nf)) id_vars
           = filter (\<lambda>c. c \<notin> set (columns data)) id_vars"
      using id_vars_not_value_vars by (intro filter_cong) (auto simp: norm_frame_def set_append_new)
    have ok: "(\<forall>r\<in>set (rows data). pipeline_row_ok res r)
            \<longleftrightarrow> (\<forall>r\<in>set (rows data). row_ok (months_between res) (conv_dates (to_datetime_dmy res) r))"
      using approx by (auto simp: pipeline_row_ok_def)
    show ?thesis
      unfolding run_pipeline_def calc sum.case transform_data_eq
        kept_rows_ok [OF dates] kpi ids f ok
      using dates nd by simp
  qed
qed

lemma run_pipeline_ok:
  assumes "set id_vars \<subseteq> set (columns data)" and "''KPI'' \<notin> set (columns data)"
    and "\<forall>r\<in>set (rows data). pipeline_row_ok res r"
  shows "run_pipeline res infer data =
     Inr (norm_frame res data,
          \<lparr>columns = output_columns,
           rows = map (project output_columns)
                   (filter emitted (long_rows (wide_rows res infer (norm_frame res data))))\<rparr>)"
proof -
  from assms(1) date_columns_id_vars have "set date_columns \<subseteq> set (columns data)" by blast
  with assms show ?thesis by (simp add: run_pipeline_eq)
qed

lemma run_pipeline_fails:
  assumes "\<not> (set id_vars \<subseteq> set (columns data) \<and> ''KPI'' \<notin> set (columns data)
              \<and> (\<forall>r\<in>set (rows data). pipeline_row_ok res r))"
  shows "\<exists>e. run_pipeline res infer data = Inl e"
proof (cases "set date_columns \<subseteq> set (columns data)")
  case True
  with assms show ?thesis unfolding run_pipeline_eq by auto
next
  case False
  then show ?thesis by (simp add: run_pipeline_eq)
qed

lemma run_pipeline_columns:
  "run_pipeline res infer data = Inr (data', long) \<Longrightarrow>
   set id_vars \<subseteq> set (columns data) \<and> ''KPI'' \<notin> set (columns data)"
  using run_pipeline_fails [of data res infer] by auto

lemma run_pipeline_rows_ok:
  "run_pipeline res infer data = Inr (data', long) \<Longrightarrow> \<forall>r\<in>set (rows data). pipeline_row_ok res r"
  using run_pipeline_fails [of data res infer] by auto

lemma run_pipeline_result:
  assumes "run_pipeline res infer data = Inr (data', long)"
  shows "data' = norm_frame res data"
    and "long = \<lparr>columns = output_columns,
                  rows = map (project output_columns)
                             (filter emitted (long_rows (wide_rows res infer (norm_frame res data))))\<rparr>"
proof -
  from run_pipeline_columns [OF assms] run_pipeline_rows_ok [OF assms]
  have eq: "run_pipeline res infer data =
     Inr (norm_frame res data,
          \<lparr>columns = output_columns,
           rows = map (project output_columns)
                   (filter emitted (long_rows (wide_rows res infer (norm_frame res data))))\<rparr>)"
    by (simp add: run_pipeline_ok)
  from assms [unfolded eq]
  have p: "(norm_frame res data,
        \<lparr>columns = output_columns,
           rows = map (project output_columns)
                   (filter emitted (long_rows (wide_rows res infer (norm_frame res data))))\<rparr>) = (data', long)"
    by (rule Inr_inject)
  from p have a: "norm_frame res data = data'"
    by (rule Pair_inject)
  from p have b: "\<lparr>columns = output_columns,
           rows = map (project output_columns)
                   (filter emitted (long_rows (wide_rows res infer (norm_frame res data))))\<rparr> = long"
    by (rule Pair_inject)
  from a show "data' = norm_frame res data" by (rule sym)
  from b show "long = \<lparr>columns = output_columns,
                  rows = map (project output_columns)
                             (filter emitted (long_rows (wide_rows res infer (norm_frame res data))))\<rparr>"
    by (rule sym)
qed

lemma relativedelta_range:
  "relativedelta res l e = Inr rd \<Longrightarrow> - 11 \<le> rd_months rd \<and> rd_months rd \<le> 11"
  using set_months_range by (auto simp: relativedelta_def Let_def split: sum.splits)

lemma months_between_range:
  "months_value res a b = NA \<or> (\<exists>n. months_value res a b = Num n \<and> - 11 \<le> n \<and> n \<le> 11)"
proof (cases "months_between res a b")
  case (Inl e)
  then show ?thesis by (simp add: months_value_def)
next
  case (Inr c)
  then show ?thesis
    by (cases a; cases b)
       (auto simp: months_value_def months_between_def split: sum.splits dest: relativedelta_range)
qed

lemma stage_row_kpi:
  "stage_row res r ''KPI Aprobacion'' =
     months_value res (to_datetime_dmy res (r ''FechaAprobacion'')) (to_datetime_dmy res (r ''Fecha CartaConsulta''))"
  "stage_row res r ''KPI Vigencia'' =
     months_value res (to_datetime_dmy res (r ''FechaVigencia'')) (to_datetime_dmy res (r ''FechaAprobacion''))"
  "stage_row res r ''KPI Elegibilidad'' =
     months_value res (to_datetime_dmy res (r ''FechaElegibilidad'')) (to_datetime_dmy res (r ''FechaVigencia''))"
  "stage_row res r ''KPI Primer Desembolso'' =
     months_value res (to_datetime_dmy res (r ''FechadePrimerDesembolso'')) (to_datetime_dmy res (r ''FechaElegibilidad''))"
  by (simp_all add: stage_row_def with_kpis_def conv_dates_def date_columns_def)

lemma stage_row_kpi_range:
  assumes "v \<in> set value_vars"
  shows "stage_row res r v = NA \<or> (\<exists>n. stage_row res r v = Num n \<and> - 11 \<le> n \<and> n \<le> 11)"
proof -
  from value_vars_cases [OF assms]
  consider "v = ''KPI Aprobacion''" | "v = ''KPI Vigencia''" | "v = ''KPI Elegibilidad''"
    | "v = ''KPI Primer Desembolso''"
    by (elim disjE)
  then show ?thesis
    by cases (simp_all only: stage_row_kpi months_between_range)
qed

lemma stage_row_id:
  "c \<in> set id_vars \<Longrightarrow> stage_row res r c = conv_dates (to_datetime_dmy res) r c"
  by (simp add: stage_row_def with_kpis_id)

lemma norm_row_id:
  "c \<in> set id_vars \<Longrightarrow> norm_row res r c = conv_dates (to_datetime_dmy res) r c"
  by (simp add: norm_row_def with_kpis_id)

lemma stage_row_agree:
  assumes eq: "map (norm_row res r') cols = map (norm_row res r) cols"
    and ids: "set id_vars \<subseteq> set cols"
  shows "(\<forall>c\<in>set id_vars. stage_row res r' c = stage_row res r c)
       \<and> (\<forall>v\<in>set value_vars. stage_row res r' v = stage_row res r v)"
proof -
  have a: "conv_dates (to_datetime_dmy res) r' c = conv_dates (to_datetime_dmy res) r c"
    if "c \<in> set id_vars" for c
  proof -
    from that ids have "c \<in> set cols" by blast
    with eq have "norm_row res r' c = norm_row res r c" by (simp add: map_eq_conv)
    with that show ?thesis by (simp add: norm_row_id)
  qed
  have b: "stage_row res r' v = stage_row res r v" if "v \<in> set value_vars" for v
    unfolding stage_row_def
    using a date_columns_id_vars that by (intro with_kpis_cong) auto
  from a b show ?thesis by (simp add: stage_row_id)
qed

lemma long_row_cong:
  "(\<And>c. c \<in> set id_vars \<Longrightarrow> w c = w' c) \<Longrightarrow> w v = w' v \<Longrightarrow> long_row f w v = long_row f w' v"
  by (rule ext) (simp add: long_row_def)

lemma long_row_KPI: "long_row f w v ''KPI'' = w v"
  using Anio_not_id by (simp add: long_row_def)

lemma long_row_Estaciones: "long_row f w v ''Estaciones'' = Text v"
  using Anio_not_id by (simp add: long_row_def)

lemma long_row_Anio: "long_row f w v Anio = year_of_first f v"
  by (simp add: long_row_def)

lemma id_vars_not_new: "''Estaciones'' \<notin> set id_vars" "''KPI'' \<notin> set id_vars"
  by (simp_all add: id_vars_def)

lemma long_row_meta:
  assumes "c \<in> set id_vars"
  shows "long_row f w v c = w c"
proof -
  from assms Anio_not_id(1) id_vars_not_new
  have "c \<noteq> Anio" "c \<noteq> ''KPI''" "c \<noteq> ''Estaciones''" by blast+
  with assms show ?thesis by (simp add: long_row_def)
qed

lemma project_in: "c \<in> set cols \<Longrightarrow> project cols r c = r c"
  by (simp add: project_def)

lemma output_columns_mem:
  "''KPI'' \<in> set output_columns" "''Estaciones'' \<in> set output_columns" "Anio \<in> set output_columns"
  "''IDEtapa'' \<in> set output_columns" "''NoEtapa'' \<in> set output_columns" "''Pais'' \<in> set output_columns"
  "''EstadoColumnaGOP'' \<in> set output_columns" "''Alias'' \<in> set output_columns"
  "''Sector'' \<in> set output_columns" "''SubSector'' \<in> set output_columns"
  by (simp_all add: output_columns_def)

lemma long_rows_mem:
  "m \<in> set (long_rows ws) \<longleftrightarrow> (\<exists>v\<in>set value_vars. \<exists>w\<in>set ws. m = long_row (hd ws) w v)"
  by (auto simp: long_rows_def)

lemma wide_rows_hd:
  "rows data \<noteq> [] \<Longrightarrow>
   hd (wide_rows res infer (norm_frame res data)) = stage_row res (hd (rows data))"
  by (cases "rows data") (simp_all add: wide_rows_norm)

lemma wide_rows_sound:
  "w \<in> set (wide_rows res infer (norm_frame res data)) \<Longrightarrow> \<exists>r\<in>set (rows data). w = stage_row res r"
  using keep_first_subset [of "\<lambda>r. map (norm_row res r) (columns (norm_frame res data))" "[]" "rows data"]
  by (auto simp: wide_rows_norm)

lemma wide_rows_complete:
  assumes r: "r \<in> set (rows data)" and ids: "set id_vars \<subseteq> set (columns data)"
  shows "\<exists>w\<in>set (wide_rows res infer (norm_frame res data)).
           (\<forall>c\<in>set id_vars. w c = stage_row res r c) \<and> (\<forall>v\<in>set value_vars. w v = stage_row res r v)"
proof -
  let ?key = "\<lambda>r. map (norm_row res r) (columns (norm_frame res data))"
  from r have "?key r \<in> ?key ` set (keep_first ?key [] (rows data))"
    unfolding keep_first_keys by auto
  then obtain r' where r': "r' \<in> set (keep_first ?key [] (rows data))" and k: "?key r' = ?key r"
    by auto
  from ids have "set id_vars \<subseteq> set (columns (norm_frame res data))"
    by (auto simp: norm_frame_def set_append_new)
  from stage_row_agree [OF k this] r' show ?thesis
    by (auto simp: wide_rows_norm)
qed

text \<open>The rows of the long table, in terms of the rows of the table read.\<close>

lemma pipeline_rows_sound:
  assumes run: "run_pipeline res infer data = Inr (data', long)" and out: "x \<in> set (rows long)"
  shows "\<exists>r\<in>set (rows data). \<exists>v\<in>set value_vars. \<exists>n. stage_row res r v = Num n \<and> 0 \<le> n
           \<and> x = project output_columns (long_row (stage_row res (hd (rows data))) (stage_row res r) v)"
proof -
  let ?W = "wide_rows res infer (norm_frame res data)"
  from out obtain m where m: "m \<in> set (long_rows ?W)" and em: "emitted m"
    and x: "x = project output_columns m"
    unfolding run_pipeline_result(2) [OF run] by auto
  from m obtain v w where v: "v \<in> set value_vars" and w: "w \<in> set ?W"
    and mw: "m = long_row (hd ?W) w v"
    by (auto simp: long_rows_mem)
  from wide_rows_sound [OF w] obtain r where r: "r \<in> set (rows data)" and wr: "w = stage_row res r"
    by auto
  from r have "rows data \<noteq> []" by auto
  then have hd: "hd ?W = stage_row res (hd (rows data))"
    by (rule wide_rows_hd)
  from em obtain n where "stage_row res r v = Num n" "0 \<le> n"
    by (auto simp: emitted_iff mw wr long_row_KPI)
  with r v x mw wr hd show ?thesis by auto
qed

lemma pipeline_rows_complete:
  assumes run: "run_pipeline res infer data = Inr (data', long)" and r: "r \<in> set (rows data)"
    and v: "v \<in> set value_vars" and n: "stage_row res r v = Num n" "0 \<le> n"
  shows "project output_columns (long_row (stage_row res (hd (rows data))) (stage_row res r) v)
           \<in> set (rows long)"
proof -
  let ?W = "wide_rows res infer (norm_frame res data)"
  have cols: "set id_vars \<subseteq> set (columns data)"
    using run_pipeline_columns [OF run] by simp
  from wide_rows_complete [OF r cols, of res infer]
  obtain w where w: "w \<in> set ?W"
    and wid: "\<And>c. c \<in> set id_vars \<Longrightarrow> w c = stage_row res r c" and wv: "w v = stage_row res r v"
    using v by auto
  from r have "rows data \<noteq> []" by auto
  then have hd: "hd ?W = stage_row res (hd (rows data))"
    by (rule wide_rows_hd)
  let ?m = "long_row (stage_row res (hd (rows data))) w v"
  have "?m \<in> set (long_rows ?W)"
    using v w hd by (auto simp: long_rows_mem)
  moreover have "emitted ?m" using n wv by (simp add: emitted_iff long_row_KPI)
  moreover have "?m = long_row (stage_row res (hd (rows data))) (stage_row res r) v"
    using wid wv by (rule long_row_cong)
  ultimately show ?thesis
    unfolding run_pipeline_result(2) [OF run] by auto
qed

section \<open>Example tables\<close>

text \<open>
  A table as \<^verbatim>\<open>pd.read_csv\<close> hands it over: the twelve columns of the sheet, one list of
  field texts per line, an empty field read as missing.
\<close>

definition csv_row :: "string list \<Rightarrow> (string \<Rightarrow> cell)" where
  "csv_row vals = (\<lambda>c. case map_of (zip id_vars vals) c of
                          Some s \<Rightarrow> (if s = [] then NA else Text s) | None \<Rightarrow> NA)"

definition csv_frame :: "string list list \<Rightarrow> dataframe" where
  "csv_frame lines = \<lparr>columns = id_vars, rows = map csv_row lines\<rparr>"

definition long_records :: "error + dataframe \<times> dataframe \<Rightarrow> error + cell list list" where
  \<comment> \<open>The long table of a run, as tuples.\<close>
  "long_records result = map_sum id (\<lambda>p. records (snd p)) result"

definition no_infer :: "cell \<Rightarrow> date option" where
  \<comment> \<open>A format-free parser that recognises nothing.\<close>
  "no_infer c = None"

lemma long_records_Inr:
  "long_records result = Inr recs \<Longrightarrow> \<exists>data' long. result = Inr (data', long) \<and> records long = recs"
  by (cases result) (auto simp: long_records_def)

lemma records_rows_nonempty: "records long = x # xs \<Longrightarrow> rows long \<noteq> []"
  by (auto simp: records_def)

lemma emitted_fun: "emitted = (\<lambda>r. \<exists>n. r ''KPI'' = Num n \<and> 0 \<le> n)"
  by (simp add: fun_eq_iff emitted_iff)

lemma compute_kpis_wide:
  assumes "run_pipeline res infer data = Inr (data', long)"
  shows "compute_kpis res infer (norm_frame res data) =
           Inr \<lparr>columns = foldl append_new (columns (norm_frame res data)) value_vars,
                rows = wide_rows res infer (norm_frame res data)\<rparr>"
proof -
  from run_pipeline_columns [OF assms] date_columns_id_vars
  have dates: "set date_columns \<subseteq> set (columns data)" by blast
  then have nd: "set date_columns \<subseteq> set (columns (norm_frame res data))"
    by (auto simp: norm_frame_def set_append_new)
  from run_pipeline_rows_ok [OF assms]
  have "\<forall>r\<in>set (rows data). row_ok (months_between res) (conv_dates (to_datetime_dmy res) r)"
    by (simp add: pipeline_row_ok_def)
  then show ?thesis
    unfolding compute_kpis_eq kept_rows_ok [OF dates] using nd by simp
qed

text \<open>
  C3. Every row of the long table has a KPI that is a number and is not negative; the
  long table is the melted table without the rows whose KPI is missing or negative, the
  others unchanged (nothing is clamped to zero).
\<close>

theorem emitted_kpi_present_nonnegative:
  assumes "run_pipeline res infer data = Inr (data', long)"
  shows "(\<forall>x\<in>set (rows long). \<exists>n. x ''KPI'' = Num n \<and> 0 \<le> n)
       \<and> (\<exists>wide melted. compute_kpis res infer data' = Inr wide \<and> melt_years wide = Inr melted
            \<and> rows long = map (\<lambda>r c. if c \<in> set output_columns then r c else NA)
                              (filter (\<lambda>r. \<exists>n. r ''KPI'' = Num n \<and> 0 \<le> n) (rows melted)))"
proof -
  note cols = run_pipeline_columns [OF assms]
  note result = run_pipeline_result [OF assms]
  let ?nf = "norm_frame res data"
  let ?wide = "\<lparr>columns = foldl append_new (columns ?nf) value_vars, rows = wide_rows res infer ?nf\<rparr>"
  let ?melted = "\<lparr>columns = id_vars @ [''Estaciones'', ''KPI'', Anio],
                  rows = long_rows (wide_rows res infer ?nf)\<rparr>"
  have nf_ids: "set id_vars \<subseteq> set (columns ?nf)" and nf_kpi: "''KPI'' \<notin> set (columns ?nf)"
    using cols KPI_not_value_var by (auto simp: norm_frame_def set_append_new)
  have w: "compute_kpis res infer ?nf = Inr ?wide" using assms by (rule compute_kpis_wide)
  have "set id_vars \<subseteq> set (columns ?wide)" "set value_vars \<subseteq> set (columns ?wide)"
    "''KPI'' \<notin> set (columns ?wide)"
    using nf_ids nf_kpi KPI_not_value_var by (auto simp: set_append_new)
  from melt_years_long [OF this] have m: "melt_years ?wide = Inr ?melted" by simp
  have r: "rows long = map (\<lambda>r c. if c \<in> set output_columns then r c else NA)
                          (filter (\<lambda>r. \<exists>n. r ''KPI'' = Num n \<and> 0 \<le> n) (rows ?melted))"
    by (simp add: result(2) project_def [abs_def] emitted_fun)
  have nonneg: "\<forall>x\<in>set (rows long). \<exists>n. x ''KPI'' = Num n \<and> 0 \<le> n"
  proof
    fix x assume "x \<in> set (rows long)"
    then obtain m where "emitted m" and "x = project output_columns m"
      by (auto simp: result(2))
    then show "\<exists>n. x ''KPI'' = Num n \<and> 0 \<le> n"
      by (simp add: project_in output_columns_mem emitted_iff)
  qed
  from w m r nonneg show ?thesis unfolding result(1) by blast
qed

definition late_eligibility_table :: dataframe where
  "late_eligibility_table = csv_frame
     [[''P1'', ''1'', ''AR'', ''ok'', ''a'', ''s'', ''ss'',
       ''10/01/2020'', ''10/04/2020'', '''', ''01/06/2021'', ''01/05/2021'']]"

lemma late_eligibility_run:
  "long_records (run_pipeline Nanosecond no_infer late_eligibility_table) =
     Inr [[Text ''P1'', Text ''KPI Aprobacion'', Num 3, Num 2020, Text ''1'',
           Text ''AR'', Text ''ok'', Text ''a'', Text ''s'', Text ''ss'']]"
  by code_simp

lemma late_eligibility_kpi:
  "months_between Nanosecond (to_datetime_dmy Nanosecond (Text ''01/05/2021''))
     (to_datetime_dmy Nanosecond (Text ''01/06/2021'')) = Inr (Num (- 1))"
  by code_simp

theorem emitted_kpi_present_nonnegative_witness:
  "\<exists>data' long. run_pipeline Nanosecond no_infer late_eligibility_table = Inr (data', long)
     \<and> records long = [[Text ''P1'', Text ''KPI Aprobacion'', Num 3, Num 2020, Text ''1'',
                         Text ''AR'', Text ''ok'', Text ''a'', Text ''s'', Text ''ss'']]
     \<and> (\<forall>x\<in>set (rows long). \<exists>n. x ''KPI'' = Num n \<and> 0 \<le> n)
     \<and> (\<exists>wide melted. compute_kpis Nanosecond no_infer data' = Inr wide \<and> melt_years wide = Inr melted
            \<and> rows long = map (\<lambda>r c. if c \<in> set output_columns then r c else NA)
                              (filter (\<lambda>r. \<exists>n. r ''KPI'' = Num n \<and> 0 \<le> n) (rows melted)))"
proof -
  from long_records_Inr [OF late_eligibility_run]
  obtain data' long where run: "run_pipeline Nanosecond no_infer late_eligibility_table = Inr (data', long)"
    and recs: "records long = [[Text ''P1'', Text ''KPI Aprobacion'', Num 3, Num 2020, Text ''1'',
                         Text ''AR'', Text ''ok'', Text ''a'', Text ''s'', Text ''ss'']]"
    by (elim exE conjE)
  note concl = emitted_kpi_present_nonnegative [OF run]
  show ?thesis
    by (rule exI [of _ data'], rule exI [of _ long]) (rule conjI [OF run conjI [OF recs concl]])
qed

definition kpi_endpoints :: "(string \<times> string \<times> string) list" where
  \<comment> \<open>The four KPI columns of \<^verbatim>\<open>transform_data\<close>, each with the column of its later and of its
      earlier date.\<close>
  "kpi_endpoints =
     [(''KPI Aprobacion'', ''FechaAprobacion'', ''Fecha CartaConsulta''),
      (''KPI Vigencia'', ''FechaVigencia'', ''FechaAprobacion''),
      (''KPI Elegibilidad'', ''FechaElegibilidad'', ''FechaVigencia''),
      (''KPI Primer Desembolso'', ''FechadePrimerDesembolso'', ''FechaElegibilidad'')]"

definition metadata_columns :: "string list" where
  "metadata_columns = [''IDEtapa'', ''NoEtapa'', ''Pais'', ''EstadoColumnaGOP'', ''Alias'', ''Sector'',
                       ''SubSector'']"

lemma kpi_endpoints_cases:
  "(v, l, e) \<in> set kpi_endpoints \<Longrightarrow>
     (v = ''KPI Aprobacion'' \<and> l = ''FechaAprobacion'' \<and> e = ''Fecha CartaConsulta'')
   \<or> (v = ''KPI Vigencia'' \<and> l = ''FechaVigencia'' \<and> e = ''FechaAprobacion'')
   \<or> (v = ''KPI Elegibilidad'' \<and> l = ''FechaElegibilidad'' \<and> e = ''FechaVigencia'')
   \<or> (v = ''KPI Primer Desembolso'' \<and> l = ''FechadePrimerDesembolso'' \<and> e = ''FechaElegibilidad'')"
  by (simp add: kpi_endpoints_def)

lemma value_vars_mem:
  "''KPI Aprobacion'' \<in> set value_vars" "''KPI Vigencia'' \<in> set value_vars"
  "''KPI Elegibilidad'' \<in> set value_vars" "''KPI Primer Desembolso'' \<in> set value_vars"
  by (simp_all add: value_vars_def)

lemma stage_row_endpoints:
  assumes "(v, l, e) \<in> set kpi_endpoints"
  shows "stage_row res r v = months_value res (to_datetime_dmy res (r l)) (to_datetime_dmy res (r e))"
    and "v \<in> set value_vars"
  using kpi_endpoints_cases [OF assms]
  by (elim disjE conjE; simp only: stage_row_kpi value_vars_mem)+

lemma row_ok_conv:
  "row_ok diff (conv_dates f r) =
     (\<not> isl (diff (f (r ''FechaAprobacion'')) (f (r ''Fecha CartaConsulta'')))
    \<and> \<not> isl (diff (f (r ''FechaVigencia'')) (f (r ''FechaAprobacion'')))
    \<and> \<not> isl (diff (f (r ''FechaElegibilidad'')) (f (r ''FechaVigencia'')))
    \<and> \<not> isl (diff (f (r ''FechadePrimerDesembolso'')) (f (r ''FechaElegibilidad''))))"
  by (simp add: row_ok_def conv_dates_def date_columns_def)

lemma row_ok_endpoints:
  assumes "(v, l, e) \<in> set kpi_endpoints"
  shows "row_ok diff (conv_dates f r) \<Longrightarrow> \<not> isl (diff (f (r l)) (f (r e)))"
  unfolding row_ok_conv
  using kpi_endpoints_cases [OF assms]
  by (elim disjE conjE; simp)

lemma row_ok_iff_endpoints:
  "row_ok diff (conv_dates f r) \<longleftrightarrow>
     (\<forall>(v, l, e)\<in>set kpi_endpoints. \<not> isl (diff (f (r l)) (f (r e))))"
  unfolding row_ok_conv by (simp add: kpi_endpoints_def)

lemma metadata_id_vars: "set metadata_columns \<subseteq> set id_vars"
  by (simp add: metadata_columns_def id_vars_def)

lemma metadata_output: "set metadata_columns \<subseteq> set output_columns"
  by (simp add: metadata_columns_def output_columns_def)

lemma metadata_not_dates: "set metadata_columns \<inter> set date_columns = {}"
  by (simp add: metadata_columns_def date_columns_def)

lemma long_record_metadata:
  assumes "c \<in> set metadata_columns"
  shows "project output_columns (long_row f (stage_row res r) v) c = r c"
proof -
  from assms metadata_id_vars metadata_output metadata_not_dates
  have "c \<in> set id_vars" "c \<in> set output_columns" "c \<notin> set date_columns" by blast+
  then show ?thesis
    by (simp add: project_in long_row_meta stage_row_id conv_dates_other)
qed

lemma months_between_NA:
  "months_between res a b \<noteq> Inr NA \<longleftrightarrow> (\<exists>l e. a = Stamp l \<and> b = Stamp e)"
  by (cases a; cases b) (simp_all add: months_between_def split: sum.splits)

lemma months_value_Num:
  "months_value res a b = Num n \<Longrightarrow>
   \<exists>l e rd. a = Stamp l \<and> b = Stamp e \<and> relativedelta res l e = Inr rd \<and> n = rd_months rd"
  by (cases a; cases b) (auto simp: months_value_def months_between_def split: sum.splits)

lemma months_value_Stamp:
  "relativedelta res l e = Inr rd \<Longrightarrow> months_value res (Stamp l) (Stamp e) = Num (rd_months rd)"
  by (simp add: months_value_def months_between_def)

lemma months_between_Stamp_ok:
  "\<not> isl (months_between res (Stamp l) (Stamp e)) \<Longrightarrow> \<exists>rd. relativedelta res l e = Inr rd"
  by (cases "relativedelta res l e") (simp_all add: months_between_def)

lemma relativedelta_same: "relativedelta res d d = Inr rd \<Longrightarrow> rd_months rd = 0"
proof -
  assume a: "relativedelta res d d = Inr rd"
  have s: "shift_months (set_months 0) d =
           Date (dyear d) (dmonth d) (min (monthrange (dyear d) (dmonth d)) (dday d))"
    by (simp add: shift_months_def set_months_def Let_def)
  have "adjust_months res False d d 0 = Inr 0 \<or> (\<exists>e. adjust_months res False d d 0 = Inl e)"
  proof (cases "radd res (set_months 0) d")
    case (Inl e)
    then show ?thesis by (subst (1 2) adjust_months.simps) simp
  next
    case (Inr dtm)
    from radd_Inr [OF this] s have "\<not> date_less d dtm" by (simp add: date_less_def)
    with Inr show ?thesis by (subst adjust_months.simps) simp
  qed
  with a have "rd = set_months 0"
    by (auto simp: relativedelta_def date_less_def)
  then show ?thesis by (simp add: set_months_def)
qed

lemma stage_row_Stamp:
  assumes ok: "pipeline_row_ok res r" and k: "(v, l, e) \<in> set kpi_endpoints"
    and dates: "to_datetime_dmy res (r l) = Stamp a" "to_datetime_dmy res (r e) = Stamp b"
  shows "\<exists>rd. relativedelta res a b = Inr rd \<and> stage_row res r v = Num (rd_months rd)"
proof -
  from ok have "row_ok (months_between res) (conv_dates (to_datetime_dmy res) r)"
    by (simp add: pipeline_row_ok_def)
  from row_ok_endpoints [OF k this] have "\<not> isl (months_between res (Stamp a) (Stamp b))"
    by (simp add: dates)
  from months_between_Stamp_ok [OF this] obtain rd where rd: "relativedelta res a b = Inr rd" ..
  then have "stage_row res r v = Num (rd_months rd)"
    by (simp add: stage_row_endpoints(1) [OF k] dates months_value_Stamp)
  with rd show ?thesis by blast
qed

text \<open>
  C10. Every KPI of the long table is between 0 and 11: the value is the \<^verbatim>\<open>months\<close>
  attribute of the \<^verbatim>\<open>relativedelta\<close>, which \<^verbatim>\<open>_set_months\<close> keeps between -11 and 11 whatever
  the distance of the two dates, and the filter removes the negative ones.
\<close>

theorem emitted_kpi_at_most_11:
  assumes "run_pipeline res infer data = Inr (data', long)"
  shows "(\<forall>x\<in>set (rows long). \<exists>n. x ''KPI'' = Num n \<and> 0 \<le> n \<and> n \<le> 11)
       \<and> (\<forall>l e rd. relativedelta res l e = Inr rd \<longrightarrow> - 11 \<le> rd_months rd \<and> rd_months rd \<le> 11)"
proof
  show "\<forall>x\<in>set (rows long). \<exists>n. x ''KPI'' = Num n \<and> 0 \<le> n \<and> n \<le> 11"
  proof
    fix x assume "x \<in> set (rows long)"
    from pipeline_rows_sound [OF assms this]
    obtain r v n where v: "v \<in> set value_vars" and n: "stage_row res r v = Num n" "0 \<le> n"
      and x: "x = project output_columns (long_row (stage_row res (hd (rows data))) (stage_row res r) v)"
      by (elim bexE exE conjE)
    from stage_row_kpi_range [OF v, of res r] n have "n \<le> 11" by simp
    moreover have "x ''KPI'' = Num n"
      by (simp add: x project_in output_columns_mem long_row_KPI n)
    ultimately show "\<exists>n. x ''KPI'' = Num n \<and> 0 \<le> n \<and> n \<le> 11"
      using n(2) by simp
  qed
  show "\<forall>l e rd. relativedelta res l e = Inr rd \<longrightarrow> - 11 \<le> rd_months rd \<and> rd_months rd \<le> 11"
    using relativedelta_range by blast
qed

text \<open>
  C9. A row whose two dates of a KPI are present and equal gives a row of the long table
  for that KPI with the value 0, the metadata of the row unchanged.
\<close>

theorem zero_duration_emitted:
  assumes run: "run_pipeline res infer data = Inr (data', long)"
    and r: "r \<in> set (rows data)"
    and k: "(kpi, later, earlier) \<in> set kpi_endpoints"
    and present: "to_datetime_dmy res (r later) = Stamp d" "to_datetime_dmy res (r earlier) = Stamp d"
  shows "\<exists>x\<in>set (rows long). x ''Estaciones'' = Text kpi \<and> x ''KPI'' = Num 0
           \<and> (\<forall>c\<in>set metadata_columns. x c = r c)"
proof -
  let ?x = "project output_columns (long_row (stage_row res (hd (rows data))) (stage_row res r) kpi)"
  note ends = stage_row_endpoints [OF k]
  from run_pipeline_rows_ok [OF run] r have ok: "pipeline_row_ok res r" by blast
  from stage_row_Stamp [OF ok k present] relativedelta_same
  have zero: "stage_row res r kpi = Num 0" by fastforce
  from pipeline_rows_complete [OF run r ends(2) zero] have "?x \<in> set (rows long)" by simp
  moreover have "?x ''Estaciones'' = Text kpi"
    by (simp add: project_in output_columns_mem long_row_Estaciones)
  moreover have "?x ''KPI'' = Num 0"
    by (simp add: project_in output_columns_mem long_row_KPI zero)
  moreover have "\<forall>c\<in>set metadata_columns. ?x c = r c"
    by (simp add: long_record_metadata)
  ultimately show ?thesis by (intro bexI conjI)
qed

text \<open>
  C4. A KPI is a number only where both of its dates are present. Every row of the long
  table for a KPI comes from a row of the table read in which both dates of that KPI are
  present, so a row without an approval date gives no approval row; and a row in which
  the two dates of a KPI are present and the months are not negative gives a row of the
  long table for that KPI, whatever its other dates are.
\<close>

theorem kpi_only_with_both_dates:
  assumes run: "run_pipeline res infer data = Inr (data', long)"
    and k: "(kpi, later, earlier) \<in> set kpi_endpoints"
  shows "(\<forall>a b. months_between res a b \<noteq> Inr NA \<longleftrightarrow> (\<exists>l e. a = Stamp l \<and> b = Stamp e))
       \<and> (\<forall>x\<in>set (rows long). x ''Estaciones'' = Text kpi \<longrightarrow>
            (\<exists>r\<in>set (rows data). (\<forall>c\<in>set metadata_columns. x c = r c)
               \<and> (\<exists>l e rd. to_datetime_dmy res (r later) = Stamp l
                        \<and> to_datetime_dmy res (r earlier) = Stamp e
                        \<and> relativedelta res l e = Inr rd \<and> x ''KPI'' = Num (rd_months rd))))
       \<and> (\<forall>r\<in>set (rows data). \<forall>l e.
            to_datetime_dmy res (r later) = Stamp l \<and> to_datetime_dmy res (r earlier) = Stamp e \<longrightarrow>
            (\<exists>rd. relativedelta res l e = Inr rd
               \<and> (0 \<le> rd_months rd \<longrightarrow>
                    (\<exists>x\<in>set (rows long). x ''Estaciones'' = Text kpi
                       \<and> x ''KPI'' = Num (rd_months rd)
                       \<and> (\<forall>c\<in>set metadata_columns. x c = r c)))))"
proof (intro conjI)
  show "\<forall>a b. months_between res a b \<noteq> Inr NA \<longleftrightarrow> (\<exists>l e. a = Stamp l \<and> b = Stamp e)"
    by (intro allI) (rule months_between_NA)
  note ends = stage_row_endpoints [OF k]
  show "\<forall>x\<in>set (rows long). x ''Estaciones'' = Text kpi \<longrightarrow>
            (\<exists>r\<in>set (rows data). (\<forall>c\<in>set metadata_columns. x c = r c)
               \<and> (\<exists>l e rd. to_datetime_dmy res (r later) = Stamp l
                        \<and> to_datetime_dmy res (r earlier) = Stamp e
                        \<and> relativedelta res l e = Inr rd \<and> x ''KPI'' = Num (rd_months rd)))"
  proof (intro ballI impI)
    fix x assume xin: "x \<in> set (rows long)" and name: "x ''Estaciones'' = Text kpi"
    from pipeline_rows_sound [OF run xin]
    obtain r v n where r: "r \<in> set (rows data)" and n: "stage_row res r v = Num n"
      and x: "x = project output_columns (long_row (stage_row res (hd (rows data))) (stage_row res r) v)"
      by (elim bexE exE conjE)
    from name have v: "v = kpi"
      by (simp add: x project_in output_columns_mem long_row_Estaciones)
    from n have "months_value res (to_datetime_dmy res (r later)) (to_datetime_dmy res (r earlier)) = Num n"
      by (simp add: v ends(1))
    from months_value_Num [OF this]
    obtain l e rd where le: "to_datetime_dmy res (r later) = Stamp l"
      "to_datetime_dmy res (r earlier) = Stamp e" "relativedelta res l e = Inr rd" "n = rd_months rd"
      by (elim exE conjE)
    have "x ''KPI'' = Num (rd_months rd)"
      by (simp add: x project_in output_columns_mem long_row_KPI n le(4) [symmetric])
    moreover have "\<forall>c\<in>set metadata_columns. x c = r c"
      by (simp add: x long_record_metadata)
    ultimately show "\<exists>r\<in>set (rows data). (\<forall>c\<in>set metadata_columns. x c = r c)
               \<and> (\<exists>l e rd. to_datetime_dmy res (r later) = Stamp l
                        \<and> to_datetime_dmy res (r earlier) = Stamp e
                        \<and> relativedelta res l e = Inr rd \<and> x ''KPI'' = Num (rd_months rd))"
      using r le(1,2,3) by (intro bexI [of _ r] conjI exI [of _ l] exI [of _ e] exI [of _ rd])
  qed
  show "\<forall>r\<in>set (rows data). \<forall>l e.
            to_datetime_dmy res (r later) = Stamp l \<and> to_datetime_dmy res (r earlier) = Stamp e \<longrightarrow>
            (\<exists>rd. relativedelta res l e = Inr rd
               \<and> (0 \<le> rd_months rd \<longrightarrow>
                    (\<exists>x\<in>set (rows long). x ''Estaciones'' = Text kpi
                       \<and> x ''KPI'' = Num (rd_months rd)
                       \<and> (\<forall>c\<in>set metadata_columns. x c = r c))))"
  proof (intro ballI allI impI)
    fix r l e
    assume r: "r \<in> set (rows data)"
      and h: "to_datetime_dmy res (r later) = Stamp l \<and> to_datetime_dmy res (r earlier) = Stamp e"
    let ?x = "project output_columns (long_row (stage_row res (hd (rows data))) (stage_row res r) kpi)"
    from run_pipeline_rows_ok [OF run] r have ok: "pipeline_row_ok res r" by blast
    from stage_row_Stamp [OF ok k h [THEN conjunct1] h [THEN conjunct2]]
    obtain rd where rd: "relativedelta res l e = Inr rd"
      and val: "stage_row res r kpi = Num (rd_months rd)"
      by (elim exE conjE)
    have "\<exists>x\<in>set (rows long). x ''Estaciones'' = Text kpi
               \<and> x ''KPI'' = Num (rd_months rd)
               \<and> (\<forall>c\<in>set metadata_columns. x c = r c)" if nn: "0 \<le> rd_months rd"
    proof -
      from pipeline_rows_complete [OF run r ends(2) val nn] have "?x \<in> set (rows long)" .
      moreover have "?x ''Estaciones'' = Text kpi"
        by (simp add: project_in output_columns_mem long_row_Estaciones)
      moreover have "?x ''KPI'' = Num (rd_months rd)"
        by (simp add: project_in output_columns_mem long_row_KPI val)
      moreover have "\<forall>c\<in>set metadata_columns. ?x c = r c"
        by (simp add: long_record_metadata)
      ultimately show ?thesis by (intro bexI conjI)
    qed
    with rd show "\<exists>rd. relativedelta res l e = Inr rd
               \<and> (0 \<le> rd_months rd \<longrightarrow>
                    (\<exists>x\<in>set (rows long). x ''Estaciones'' = Text kpi
                       \<and> x ''KPI'' = Num (rd_months rd)
                       \<and> (\<forall>c\<in>set metadata_columns. x c = r c)))"
      by blast
  qed
qed

definition long_stage_table :: dataframe where
  "long_stage_table = csv_frame
     [[''P1'', ''1'', ''AR'', ''ok'', ''a'', ''s'', ''ss'',
       ''10/01/2020'', ''10/04/2021'', '''', '''', '''']]"

lemma long_stage_run:
  "long_records (run_pipeline Nanosecond no_infer long_stage_table) =
     Inr [[Text ''P1'', Text ''KPI Aprobacion'', Num 3, Num 2021, Text ''1'',
           Text ''AR'', Text ''ok'', Text ''a'', Text ''s'', Text ''ss'']]"
  by code_simp

theorem emitted_kpi_at_most_11_witness:
  "\<exists>data' long. run_pipeline Nanosecond no_infer long_stage_table = Inr (data', long)
     \<and> records long = [[Text ''P1'', Text ''KPI Aprobacion'', Num 3, Num 2021, Text ''1'',
                         Text ''AR'', Text ''ok'', Text ''a'', Text ''s'', Text ''ss'']]
     \<and> (\<forall>x\<in>set (rows long). \<exists>n. x ''KPI'' = Num n \<and> 0 \<le> n \<and> n \<le> 11)
     \<and> (\<forall>l e rd. relativedelta Nanosecond l e = Inr rd \<longrightarrow>
            - 11 \<le> rd_months rd \<and> rd_months rd \<le> 11)"
proof -
  from long_records_Inr [OF long_stage_run]
  obtain data' long where run: "run_pipeline Nanosecond no_infer long_stage_table = Inr (data', long)"
    and recs: "records long = [[Text ''P1'', Text ''KPI Aprobacion'', Num 3, Num 2021, Text ''1'',
                         Text ''AR'', Text ''ok'', Text ''a'', Text ''s'', Text ''ss'']]"
    by (elim exE conjE)
  note concl = emitted_kpi_at_most_11 [OF run]
  show ?thesis
    by (rule exI [of _ data'], rule exI [of _ long]) (rule conjI [OF run conjI [OF recs concl]])
qed

text \<open>
  C2. The KPI is the \<^verbatim>\<open>months\<close> attribute alone, so the years of the difference are lost.
  From 10 January 2020 to 10 April 2021 fifteen whole months pass; the long table says 3,
  while \<^verbatim>\<open>calculate_kpis\<close> computes 15 from the same dates.
\<close>

theorem months_attribute_drops_years:
  "long_records (run_pipeline Nanosecond no_infer long_stage_table) =
     Inr [[Text ''P1'', Text ''KPI Aprobacion'', Num 3, Num 2021, Text ''1'',
           Text ''AR'', Text ''ok'', Text ''a'', Text ''s'', Text ''ss'']]
   \<and> relativedelta Nanosecond (Date 2021 4 10) (Date 2020 1 10) = Inr \<lparr>rd_years = 1, rd_months = 3\<rparr>
   \<and> get_approx_months_diff Nanosecond (Stamp (Date 2021 4 10)) (Stamp (Date 2020 1 10)) = Inr (Num 15)
   \<and> months_between Nanosecond (Stamp (Date 2020 4 10)) (Stamp (Date 2020 1 10)) = Inr (Num 3)"
proof (intro conjI)
  show "long_records (run_pipeline Nanosecond no_infer long_stage_table) =
     Inr [[Text ''P1'', Text ''KPI Aprobacion'', Num 3, Num 2021, Text ''1'',
           Text ''AR'', Text ''ok'', Text ''a'', Text ''s'', Text ''ss'']]"
    by (rule long_stage_run)
  show "relativedelta Nanosecond (Date 2021 4 10) (Date 2020 1 10) = Inr \<lparr>rd_years = 1, rd_months = 3\<rparr>"
    by code_simp
  show "get_approx_months_diff Nanosecond (Stamp (Date 2021 4 10)) (Stamp (Date 2020 1 10)) = Inr (Num 15)"
    by code_simp
  show "months_between Nanosecond (Stamp (Date 2020 4 10)) (Stamp (Date 2020 1 10)) = Inr (Num 3)"
    by code_simp
qed

definition two_stage_table :: dataframe where
  "two_stage_table = csv_frame
     [[''P1'', ''1'', ''AR'', ''ok'', ''a'', ''s'', ''ss'',
       ''10/01/2020'', ''10/04/2020'', '''', '''', ''''],
      [''P2'', ''1'', ''AR'', ''ok'', ''a'', ''s'', ''ss'',
       ''10/01/2021'', ''15/03/2021'', '''', '''', '''']]"

text \<open>
  C1. The year of every row of the long table is read from the first row of the table
  (\<^verbatim>\<open>.iloc[0]\<close>), not from the row the KPI was computed from. Stage P2 was approved on 15
  March 2021; its approval row carries the year 2020, the approval year of stage P1.
\<close>

theorem year_read_from_first_row:
  "long_records (run_pipeline Nanosecond no_infer two_stage_table) =
     Inr [[Text ''P1'', Text ''KPI Aprobacion'', Num 3, Num 2020, Text ''1'',
           Text ''AR'', Text ''ok'', Text ''a'', Text ''s'', Text ''ss''],
          [Text ''P2'', Text ''KPI Aprobacion'', Num 2, Num 2020, Text ''1'',
           Text ''AR'', Text ''ok'', Text ''a'', Text ''s'', Text ''ss'']]
   \<and> to_datetime_dmy Nanosecond (Text ''15/03/2021'') = Stamp (Date 2021 3 15)"
proof (intro conjI)
  show "long_records (run_pipeline Nanosecond no_infer two_stage_table) =
     Inr [[Text ''P1'', Text ''KPI Aprobacion'', Num 3, Num 2020, Text ''1'',
           Text ''AR'', Text ''ok'', Text ''a'', Text ''s'', Text ''ss''],
          [Text ''P2'', Text ''KPI Aprobacion'', Num 2, Num 2020, Text ''1'',
           Text ''AR'', Text ''ok'', Text ''a'', Text ''s'', Text ''ss'']]"
    by code_simp
  show "to_datetime_dmy Nanosecond (Text ''15/03/2021'') = Stamp (Date 2021 3 15)"
    by code_simp
qed

definition same_day_table :: dataframe where
  "same_day_table = csv_frame
     [[''P1'', ''1'', ''AR'', ''ok'', ''a'', ''s'', ''ss'',
       '''', ''15/03/2021'', ''15/03/2021'', '''', '''']]"

lemma same_day_run:
  "long_records (run_pipeline Nanosecond no_infer same_day_table) =
     Inr [[Text ''P1'', Text ''KPI Vigencia'', Num 0, Num 2021, Text ''1'',
           Text ''AR'', Text ''ok'', Text ''a'', Text ''s'', Text ''ss'']]"
  by code_simp

lemma same_day_dates:
  "to_datetime_dmy Nanosecond (csv_row [''P1'', ''1'', ''AR'', ''ok'', ''a'', ''s'', ''ss'',
       '''', ''15/03/2021'', ''15/03/2021'', '''', ''''] ''FechaVigencia'') = Stamp (Date 2021 3 15)"
  "to_datetime_dmy Nanosecond (csv_row [''P1'', ''1'', ''AR'', ''ok'', ''a'', ''s'', ''ss'',
       '''', ''15/03/2021'', ''15/03/2021'', '''', ''''] ''FechaAprobacion'') = Stamp (Date 2021 3 15)"
  by code_simp+

theorem zero_duration_emitted_witness:
  "\<exists>data' long. run_pipeline Nanosecond no_infer same_day_table = Inr (data', long)
     \<and> records long = [[Text ''P1'', Text ''KPI Vigencia'', Num 0, Num 2021, Text ''1'',
                         Text ''AR'', Text ''ok'', Text ''a'', Text ''s'', Text ''ss'']]
     \<and> (\<exists>x\<in>set (rows long). x ''Estaciones'' = Text ''KPI Vigencia'' \<and> x ''KPI'' = Num 0
           \<and> (\<forall>c\<in>set metadata_columns. x c =
                 csv_row [''P1'', ''1'', ''AR'', ''ok'', ''a'', ''s'', ''ss'',
                          '''', ''15/03/2021'', ''15/03/2021'', '''', ''''] c))"
proof -
  from long_records_Inr [OF same_day_run]
  obtain data' long where run: "run_pipeline Nanosecond no_infer same_day_table = Inr (data', long)"
    and recs: "records long = [[Text ''P1'', Text ''KPI Vigencia'', Num 0, Num 2021, Text ''1'',
                         Text ''AR'', Text ''ok'', Text ''a'', Text ''s'', Text ''ss'']]"
    by (elim exE conjE)
  have r: "csv_row [''P1'', ''1'', ''AR'', ''ok'', ''a'', ''s'', ''ss'',
                    '''', ''15/03/2021'', ''15/03/2021'', '''', ''''] \<in> set (rows same_day_table)"
    by (simp add: same_day_table_def csv_frame_def)
  have k: "(''KPI Vigencia'', ''FechaVigencia'', ''FechaAprobacion'') \<in> set kpi_endpoints"
    by (simp add: kpi_endpoints_def)
  note concl = zero_duration_emitted [OF run r k same_day_dates]
  show ?thesis
    by (rule exI [of _ data'], rule exI [of _ long]) (rule conjI [OF run conjI [OF recs concl]])
qed

definition no_approval_table :: dataframe where
  "no_approval_table = csv_frame
     [[''P1'', ''1'', ''AR'', ''ok'', ''a'', ''s'', ''ss'',
       ''10/01/2020'', '''', ''01/02/2020'', ''01/05/2020'', ''01/06/2020'']]"

lemma no_approval_run:
  "long_records (run_pipeline Nanosecond no_infer no_approval_table) =
     Inr [[Text ''P1'', Text ''KPI Elegibilidad'', Num 3, Num 2020, Text ''1'',
           Text ''AR'', Text ''ok'', Text ''a'', Text ''s'', Text ''ss''],
          [Text ''P1'', Text ''KPI Primer Desembolso'', Num 1, Num 2020, Text ''1'',
           Text ''AR'', Text ''ok'', Text ''a'', Text ''s'', Text ''ss'']]"
  by code_simp

theorem kpi_only_with_both_dates_witness:
  "\<exists>data' long. run_pipeline Nanosecond no_infer no_approval_table = Inr (data', long)
     \<and> records long =
         [[Text ''P1'', Text ''KPI Elegibilidad'', Num 3, Num 2020, Text ''1'',
           Text ''AR'', Text ''ok'', Text ''a'', Text ''s'', Text ''ss''],
          [Text ''P1'', Text ''KPI Primer Desembolso'', Num 1, Num 2020, Text ''1'',
           Text ''AR'', Text ''ok'', Text ''a'', Text ''s'', Text ''ss'']]
     \<and> (\<forall>a b. months_between Nanosecond a b \<noteq> Inr NA \<longleftrightarrow> (\<exists>l e. a = Stamp l \<and> b = Stamp e))
     \<and> (\<forall>x\<in>set (rows long). x ''Estaciones'' = Text ''KPI Elegibilidad'' \<longrightarrow>
            (\<exists>r\<in>set (rows no_approval_table). (\<forall>c\<in>set metadata_columns. x c = r c)
               \<and> (\<exists>l e rd. to_datetime_dmy Nanosecond (r ''FechaElegibilidad'') = Stamp l
                        \<and> to_datetime_dmy Nanosecond (r ''FechaVigencia'') = Stamp e
                        \<and> relativedelta Nanosecond l e = Inr rd \<and> x ''KPI'' = Num (rd_months rd))))
     \<and> (\<forall>r\<in>set (rows no_approval_table). \<forall>l e.
            to_datetime_dmy Nanosecond (r ''FechaElegibilidad'') = Stamp l
              \<and> to_datetime_dmy Nanosecond (r ''FechaVigencia'') = Stamp e \<longrightarrow>
            (\<exists>rd. relativedelta Nanosecond l e = Inr rd
               \<and> (0 \<le> rd_months rd \<longrightarrow>
                    (\<exists>x\<in>set (rows long). x ''Estaciones'' = Text ''KPI Elegibilidad''
                       \<and> x ''KPI'' = Num (rd_months rd)
                       \<and> (\<forall>c\<in>set metadata_columns. x c = r c)))))"
proof -
  from long_records_Inr [OF no_approval_run]
  obtain data' long where run: "run_pipeline Nanosecond no_infer no_approval_table = Inr (data', long)"
    and recs: "records long =
         [[Text ''P1'', Text ''KPI Elegibilidad'', Num 3, Num 2020, Text ''1'',
           Text ''AR'', Text ''ok'', Text ''a'', Text ''s'', Text ''ss''],
          [Text ''P1'', Text ''KPI Primer Desembolso'', Num 1, Num 2020, Text ''1'',
           Text ''AR'', Text ''ok'', Text ''a'', Text ''s'', Text ''ss'']]"
    by (elim exE conjE)
  have k: "(''KPI Elegibilidad'', ''FechaElegibilidad'', ''FechaVigencia'') \<in> set kpi_endpoints"
    by (simp add: kpi_endpoints_def)
  note concl = kpi_only_with_both_dates [OF run k]
  show ?thesis
    by (rule exI [of _ data'], rule exI [of _ long]) (rule conjI [OF run conjI [OF recs concl]])
qed

lemma append_new_present: "set vs \<subseteq> set cols \<Longrightarrow> foldl append_new cols vs = cols"
  by (induction vs arbitrary: cols) (simp_all add: append_new_def)

lemma norm_row_idem: "norm_row res (norm_row res r) = norm_row res r"
proof -
  have a: "conv_dates (to_datetime_dmy res) (norm_row res r) c = conv_dates (to_datetime_dmy res) r c"
    if "c \<in> set date_columns" for c
    using that by (rule norm_row_dates(2))
  have b: "conv_dates (to_datetime_dmy res) (norm_row res r) c = norm_row res r c"
    if "c \<notin> set date_columns" for c
    using that by (simp add: conv_dates_other)
  show ?thesis
  proof (rule ext)
    fix c
    show "norm_row res (norm_row res r) c = norm_row res r c"
    proof (cases "c \<in> set value_vars")
      case True
      have "with_kpis (approx_value res) (conv_dates (to_datetime_dmy res) (norm_row res r)) c =
            with_kpis (approx_value res) (conv_dates (to_datetime_dmy res) r) c"
        using a True by (rule with_kpis_cong)
      then show ?thesis by (simp add: norm_row_def)
    next
      case False
      show ?thesis
      proof (cases "c \<in> set date_columns")
        case True
        with False a [OF True] show ?thesis
          by (simp add: norm_row_def [of res "norm_row res r"] with_kpis_other)
             (simp add: norm_row_def with_kpis_other)
      next
        case nd: False
        with False b [OF nd] show ?thesis
          by (simp add: norm_row_def [of res "norm_row res r"] with_kpis_other)
      qed
    qed
  qed
qed

lemma norm_frame_idem: "norm_frame res (norm_frame res data) = norm_frame res data"
proof -
  have "set value_vars \<subseteq> set (foldl append_new (columns data) value_vars)"
    by (simp add: set_append_new)
  then show ?thesis
    by (simp add: norm_frame_def append_new_present norm_row_idem)
qed

lemma pipeline_row_ok_norm: "pipeline_row_ok res (norm_row res r) = pipeline_row_ok res r"
  by (simp add: pipeline_row_ok_def row_ok_norm(2))

text \<open>
  C8. A run leaves the table with its date columns converted and the four KPI columns
  added. Running the pipeline again, on that table or on a copy of the table read, gives
  the same long table, and leaves the table as the first run left it.
\<close>

theorem rerun_gives_same_table:
  assumes "run_pipeline res infer data = Inr (data', long)"
  shows "run_pipeline res infer data' = Inr (data', long)
       \<and> (\<forall>copy data2 long2. copy = data \<and> run_pipeline res infer copy = Inr (data2, long2) \<longrightarrow>
             set (records long2) = set (records long))"
proof
  note cols = run_pipeline_columns [OF assms]
  note result = run_pipeline_result [OF assms]
  have "set id_vars \<subseteq> set (columns (norm_frame res data))"
    "''KPI'' \<notin> set (columns (norm_frame res data))"
    using cols KPI_not_value_var by (auto simp: norm_frame_def set_append_new)
  moreover have "\<forall>r\<in>set (rows (norm_frame res data)). pipeline_row_ok res r"
    using run_pipeline_rows_ok [OF assms] by (simp add: norm_frame_def pipeline_row_ok_norm)
  ultimately have "run_pipeline res infer (norm_frame res data) =
     Inr (norm_frame res (norm_frame res data),
          \<lparr>columns = output_columns,
           rows = map (project output_columns)
                   (filter emitted (long_rows (wide_rows res infer (norm_frame res (norm_frame res data)))))\<rparr>)"
    by (rule run_pipeline_ok)
  then show "run_pipeline res infer data' = Inr (data', long)"
    by (simp add: result norm_frame_idem)
  show "\<forall>copy data2 long2. copy = data \<and> run_pipeline res infer copy = Inr (data2, long2) \<longrightarrow>
             set (records long2) = set (records long)"
    using assms by simp
qed

theorem rerun_gives_same_table_witness:
  "\<exists>data' long. run_pipeline Nanosecond no_infer same_day_table = Inr (data', long)
     \<and> records long = [[Text ''P1'', Text ''KPI Vigencia'', Num 0, Num 2021, Text ''1'',
                         Text ''AR'', Text ''ok'', Text ''a'', Text ''s'', Text ''ss'']]
     \<and> run_pipeline Nanosecond no_infer data' = Inr (data', long)
     \<and> (\<forall>copy data2 long2. copy = same_day_table
            \<and> run_pipeline Nanosecond no_infer copy = Inr (data2, long2) \<longrightarrow>
             set (records long2) = set (records long))"
proof -
  from long_records_Inr [OF same_day_run]
  obtain data' long where run: "run_pipeline Nanosecond no_infer same_day_table = Inr (data', long)"
    and recs: "records long = [[Text ''P1'', Text ''KPI Vigencia'', Num 0, Num 2021, Text ''1'',
                         Text ''AR'', Text ''ok'', Text ''a'', Text ''s'', Text ''ss'']]"
    by (elim exE conjE)
  note concl = rerun_gives_same_table [OF run]
  show ?thesis
    by (rule exI [of _ data'], rule exI [of _ long]) (rule conjI [OF run conjI [OF recs concl]])
qed

section \<open>What interrupts the pipeline\<close>

lemma endpoints_dates:
  assumes "(v, l, e) \<in> set kpi_endpoints"
  shows "l \<in> set date_columns" "e \<in> set date_columns"
  using kpi_endpoints_cases [OF assms]
  by (elim disjE conjE; simp add: date_columns_def)+

lemma pipeline_row_ok_endpoints:
  "pipeline_row_ok res r \<longleftrightarrow>
     (\<forall>(v, l, e)\<in>set kpi_endpoints.
        \<not> isl (get_approx_months_diff res (to_datetime_dmy res (r l)) (to_datetime_dmy res (r e)))
      \<and> \<not> isl (months_between res (to_datetime_dmy res (r l)) (to_datetime_dmy res (r e))))"
  by (auto simp: pipeline_row_ok_def row_ok_iff_endpoints)

lemma pair_ok_iff:
  "\<not> isl (get_approx_months_diff res A B) \<and> \<not> isl (months_between res A B) \<longleftrightarrow>
     (\<forall>a b. A = Stamp a \<and> B = Stamp b \<longrightarrow>
        timedelta_ok res (toordinal a - toordinal b) \<and> (\<exists>rd. relativedelta res a b = Inr rd))"
  by (cases A; cases B)
     (auto simp: get_approx_months_diff_def months_between_def split: sum.splits)

lemma pipeline_row_ok_iff:
  "pipeline_row_ok res r \<longleftrightarrow>
     (\<forall>(v, l, e)\<in>set kpi_endpoints. \<forall>a b.
        to_datetime_dmy res (r l) = Stamp a \<and> to_datetime_dmy res (r e) = Stamp b \<longrightarrow>
        timedelta_ok res (toordinal a - toordinal b) \<and> (\<exists>rd. relativedelta res a b = Inr rd))"
  unfolding pipeline_row_ok_endpoints pair_ok_iff ..

lemma unparseable_keeps_ok:
  assumes cells: "\<forall>c\<in>set date_columns. r2 c = r c \<or> to_datetime_dmy res (r2 c) = NA"
    and ok: "pipeline_row_ok res r"
  shows "pipeline_row_ok res r2"
  unfolding pipeline_row_ok_iff
proof (intro ballI, clarify)
  fix v l e a b
  assume k: "(v, l, e) \<in> set kpi_endpoints"
    and a: "to_datetime_dmy res (r2 l) = Stamp a" and b: "to_datetime_dmy res (r2 e) = Stamp b"
  from endpoints_dates [OF k] cells a b have "r2 l = r l" "r2 e = r e" by auto
  with a b have "to_datetime_dmy res (r l) = Stamp a" "to_datetime_dmy res (r e) = Stamp b"
    by simp_all
  with ok [unfolded pipeline_row_ok_iff] k
  show "timedelta_ok res (toordinal a - toordinal b) \<and> (\<exists>rd. relativedelta res a b = Inr rd)"
    by blast
qed

lemma unparseable_rows_ok:
  assumes "list_all2 (\<lambda>r2 r. \<forall>c\<in>set date_columns. r2 c = r c \<or> to_datetime_dmy res (r2 c) = NA)
             rs2 rs"
    and "\<forall>r\<in>set rs. pipeline_row_ok res r"
  shows "\<forall>r\<in>set rs2. pipeline_row_ok res r"
  using assms
  by (induction rule: list_all2_induct) (auto intro: unparseable_keeps_ok)


















fun iso_infer :: "cell \<Rightarrow> date option" where
  \<comment> \<open>A format-free parser that reads ISO 8601 dates (year-month-day), as the one of pandas
      does, and nothing else.\<close>
  "iso_infer (Text s) =
     (case split_on CHR ''-'' s of
        [ys, ms, ds] \<Rightarrow>
          (case (year_field ys, month_field ms, day_field ds) of
             (Some y, Some m, Some d) \<Rightarrow>
               if valid_date (Date y m d) then Some (Date y m d) else None
           | _ \<Rightarrow> None)
      | _ \<Rightarrow> None)"
| "iso_infer c = None"

definition iso_dates_table :: dataframe where
  "iso_dates_table = csv_frame
     [[''P1'', ''1'', ''AR'', ''ok'', ''a'', ''s'', ''ss'',
       ''2020-01-10'', ''2020-04-10'', '''', '''', '''']]"

text \<open>
  C7, as stated, fails. The dates 2020-01-10 and 2020-04-10 do not match the fixed layout;
  a format-free parse of the raw values reads them (\<^verbatim>\<open>transform_data\<close> on the raw table gives
  the approval row), but in the pipeline \<^verbatim>\<open>calculate_kpis\<close> has already replaced them by
  missing values, and the long table is empty.
\<close>

theorem lenient_parse_never_sees_raw_value:
  "to_datetime_dmy Nanosecond (Text ''2020-04-10'') = NA
   \<and> to_datetime Nanosecond iso_infer (Text ''2020-04-10'') = Stamp (Date 2020 4 10)
   \<and> to_datetime Nanosecond iso_infer (to_datetime_dmy Nanosecond (Text ''2020-04-10'')) = NA
   \<and> map_sum id records (transform_data Nanosecond iso_infer iso_dates_table) =
       Inr [[Text ''P1'', Text ''KPI Aprobacion'', Num 3, Num 2020, Text ''1'',
             Text ''AR'', Text ''ok'', Text ''a'', Text ''s'', Text ''ss'']]
   \<and> long_records (run_pipeline Nanosecond iso_infer iso_dates_table) = Inr []"
proof (intro conjI)
  show "to_datetime_dmy Nanosecond (Text ''2020-04-10'') = NA" by code_simp
  show "to_datetime Nanosecond iso_infer (Text ''2020-04-10'') = Stamp (Date 2020 4 10)"
    by code_simp
  show "to_datetime Nanosecond iso_infer (to_datetime_dmy Nanosecond (Text ''2020-04-10'')) = NA"
    by code_simp
  show "map_sum id records (transform_data Nanosecond iso_infer iso_dates_table) =
       Inr [[Text ''P1'', Text ''KPI Aprobacion'', Num 3, Num 2020, Text ''1'',
             Text ''AR'', Text ''ok'', Text ''a'', Text ''s'', Text ''ss'']]"
    by code_simp
  show "long_records (run_pipeline Nanosecond iso_infer iso_dates_table) = Inr []" by code_simp
qed

lemma norm_row_date:
  "c \<in> set date_columns \<Longrightarrow> norm_row res r c = to_datetime_dmy res (r c)"
  by (simp add: norm_row_def with_kpis_date conv_dates_date)

lemma norm_row_metadata: "c \<in> set metadata_columns \<Longrightarrow> norm_row res r c = r c"
  using metadata_id_vars metadata_not_dates
  by (simp add: norm_row_id conv_dates_other subset_iff disjoint_iff)

text \<open>
  C7, amended. Every raw date value is parsed once, against the fixed layout, by
  \<^verbatim>\<open>calculate_kpis\<close>: the table it leaves has every row of the table read, the metadata
  unchanged, each date the parse of the raw value or missing. The format-free conversion
  of \<^verbatim>\<open>transform_data\<close> leaves such a value as it is, so the result of the pipeline is the
  same for every format-free parser. A value that does not parse does not raise and does
  not remove its row: with any of the date cells replaced by unparseable ones the pipeline
  still returns, and the table it leaves still has every row.
\<close>

theorem dates_parsed_by_fixed_layout_only:
  assumes "run_pipeline res infer data = Inr (data', long)"
  shows "length (rows data') = length (rows data)
       \<and> (\<forall>i<length (rows data).
             (\<forall>c\<in>set date_columns. (rows data' ! i) c = to_datetime_dmy res ((rows data ! i) c))
           \<and> (\<forall>c\<in>set metadata_columns. (rows data' ! i) c = (rows data ! i) c))
       \<and> (\<forall>c. to_datetime res infer (to_datetime_dmy res c) = to_datetime_dmy res c)
       \<and> (\<forall>infer2. run_pipeline res infer2 data = Inr (data', long))
       \<and> (\<forall>data2. columns data2 = columns data
             \<and> list_all2 (\<lambda>r2 r. \<forall>c\<in>set date_columns.
                            r2 c = r c \<or> to_datetime_dmy res (r2 c) = NA)
                  (rows data2) (rows data) \<longrightarrow>
             (\<exists>d l. run_pipeline res infer data2 = Inr (d, l)
                \<and> length (rows d) = length (rows data2)))"
proof (intro conjI)
  note cols = run_pipeline_columns [OF assms]
  note ok = run_pipeline_rows_ok [OF assms]
  note result = run_pipeline_result [OF assms]
  show "length (rows data') = length (rows data)"
    by (simp add: result(1) norm_frame_def)
  show "\<forall>i<length (rows data).
             (\<forall>c\<in>set date_columns. (rows data' ! i) c = to_datetime_dmy res ((rows data ! i) c))
           \<and> (\<forall>c\<in>set metadata_columns. (rows data' ! i) c = (rows data ! i) c)"
    by (simp add: result(1) norm_frame_def norm_row_date norm_row_metadata)
  show "\<forall>c. to_datetime res infer (to_datetime_dmy res c) = to_datetime_dmy res c"
    by (simp add: to_datetime_after_dmy)
  show "\<forall>infer2. run_pipeline res infer2 data = Inr (data', long)"
  proof
    fix infer2
    from cols ok have "run_pipeline res infer2 data =
       Inr (norm_frame res data,
            \<lparr>columns = output_columns,
             rows = map (project output_columns)
                     (filter emitted (long_rows (wide_rows res infer2 (norm_frame res data))))\<rparr>)"
      by (simp add: run_pipeline_ok)
    also have "wide_rows res infer2 (norm_frame res data) = wide_rows res infer (norm_frame res data)"
      by (simp add: wide_rows_norm)
    finally show "run_pipeline res infer2 data = Inr (data', long)"
      using result by simp
  qed
  show "\<forall>data2. columns data2 = columns data
             \<and> list_all2 (\<lambda>r2 r. \<forall>c\<in>set date_columns.
                            r2 c = r c \<or> to_datetime_dmy res (r2 c) = NA)
                  (rows data2) (rows data) \<longrightarrow>
             (\<exists>d l. run_pipeline res infer data2 = Inr (d, l)
                \<and> length (rows d) = length (rows data2))"
  proof (intro allI impI)
    fix data2 :: dataframe
    assume a: "columns data2 = columns data
             \<and> list_all2 (\<lambda>r2 r. \<forall>c\<in>set date_columns.
                            r2 c = r c \<or> to_datetime_dmy res (r2 c) = NA)
                  (rows data2) (rows data)"
    from unparseable_rows_ok [OF a [THEN conjunct2] ok]
    have "\<forall>r\<in>set (rows data2). pipeline_row_ok res r" .
    with cols a have "run_pipeline res infer data2 =
       Inr (norm_frame res data2,
            \<lparr>columns = output_columns,
             rows = map (project output_columns)
                     (filter emitted (long_rows (wide_rows res infer (norm_frame res data2))))\<rparr>)"
      by (simp add: run_pipeline_ok)
    moreover have "length (rows (norm_frame res data2)) = length (rows data2)"
      by (simp add: norm_frame_def)
    ultimately show "\<exists>d l. run_pipeline res infer data2 = Inr (d, l)
                \<and> length (rows d) = length (rows data2)"
      by blast
  qed
qed

lemma iso_dates_run: "long_records (run_pipeline Nanosecond iso_infer iso_dates_table) = Inr []"
  by code_simp

theorem dates_parsed_by_fixed_layout_only_witness:
  "\<exists>data' long. run_pipeline Nanosecond iso_infer iso_dates_table = Inr (data', long)
     \<and> records long = []
     \<and> length (rows data') = length (rows iso_dates_table)
     \<and> (\<forall>i<length (rows iso_dates_table).
             (\<forall>c\<in>set date_columns.
                (rows data' ! i) c = to_datetime_dmy Nanosecond ((rows iso_dates_table ! i) c))
           \<and> (\<forall>c\<in>set metadata_columns. (rows data' ! i) c = (rows iso_dates_table ! i) c))
     \<and> (\<forall>c. to_datetime Nanosecond iso_infer (to_datetime_dmy Nanosecond c)
              = to_datetime_dmy Nanosecond c)
     \<and> (\<forall>infer2. run_pipeline Nanosecond infer2 iso_dates_table = Inr (data', long))
     \<and> (\<forall>data2. columns data2 = columns iso_dates_table
             \<and> list_all2 (\<lambda>r2 r. \<forall>c\<in>set date_columns.
                            r2 c = r c \<or> to_datetime_dmy Nanosecond (r2 c) = NA)
                  (rows data2) (rows iso_dates_table) \<longrightarrow>
             (\<exists>d l. run_pipeline Nanosecond iso_infer data2 = Inr (d, l)
                \<and> length (rows d) = length (rows data2)))"
proof -
  from long_records_Inr [OF iso_dates_run]
  obtain data' long where run: "run_pipeline Nanosecond iso_infer iso_dates_table = Inr (data', long)"
    and recs: "records long = []"
    by (elim exE conjE)
  note concl = dates_parsed_by_fixed_layout_only [OF run]
  show ?thesis
    by (rule exI [of _ data'], rule exI [of _ long]) (rule conjI [OF run conjI [OF recs concl]])
qed

section \<open>Duplicate rows\<close>

lemma drop_duplicates_later:
  assumes "map r' (columns data) = map r (columns data)"
  shows "drop_duplicates (data\<lparr>rows := xs @ r # ys @ r' # zs\<rparr>)
       = drop_duplicates (data\<lparr>rows := xs @ r # ys @ zs\<rparr>)"
proof -
  let ?key = "\<lambda>r. map r (columns data)"
  from assms have "?key r' \<in> set [] \<union> ?key ` set (xs @ r # ys)" by simp
  from keep_first_drop_later [OF this, of zs]
  show ?thesis by (simp add: drop_duplicates_def)
qed

lemma drop_duplicates_retains:
  "distinct (map (\<lambda>r. map r (columns data)) (rows (drop_duplicates data)))"
  "(\<lambda>r. map r (columns data)) ` set (rows (drop_duplicates data))
     = (\<lambda>r. map r (columns data)) ` set (rows data)"
  by (simp_all add: drop_duplicates_def keep_first_distinct keep_first_keys)

lemma norm_key_agree:
  assumes eq: "map r' cols = map r cols" and dates: "set date_columns \<subseteq> set cols"
  shows "map (norm_row res r') (foldl append_new cols value_vars)
       = map (norm_row res r) (foldl append_new cols value_vars)"
proof -
  from eq have a: "r' c = r c" if "c \<in> set cols" for c
    using that by (simp add: map_eq_conv)
  have d: "conv_dates (to_datetime_dmy res) r' c = conv_dates (to_datetime_dmy res) r c"
    if "c \<in> set date_columns" for c
    using that dates a by (simp add: conv_dates_date subset_iff)
  have "norm_row res r' c = norm_row res r c" if "c \<in> set cols \<union> set value_vars" for c
  proof (cases "c \<in> set value_vars")
    case True
    show ?thesis unfolding norm_row_def using d True by (rule with_kpis_cong)
  next
    case False
    with that have c: "c \<in> set cols" by simp
    show ?thesis
    proof (cases "c \<in> set date_columns")
      case True
      with False d show ?thesis by (simp add: norm_row_def with_kpis_other)
    next
      case nd: False
      with False a [OF c] show ?thesis
        by (simp add: norm_row_def with_kpis_other conv_dates_other)
    qed
  qed
  then show ?thesis by (simp add: map_eq_conv set_append_new)
qed

lemma copy_row_ok:
  assumes eq: "map r' cols = map r cols" and dates: "set date_columns \<subseteq> set cols"
  shows "pipeline_row_ok res r' = pipeline_row_ok res r"
proof -
  from eq have a: "r' c = r c" if "c \<in> set cols" for c
    using that by (simp add: map_eq_conv)
  have "conv_dates (to_datetime_dmy res) r' c = conv_dates (to_datetime_dmy res) r c"
    if "c \<in> set date_columns" for c
    using that dates a by (simp add: conv_dates_date subset_iff)
  then have "row_ok diff (conv_dates (to_datetime_dmy res) r')
           = row_ok diff (conv_dates (to_datetime_dmy res) r)" for diff
    by (rule row_ok_cong)
  then show ?thesis by (simp add: pipeline_row_ok_def)
qed

text \<open>
  \<^verbatim>\<open>drop_duplicates\<close> keeps the first of the rows that are equal on every column. A later
  copy of a row therefore adds nothing: the long table is the one of the table without
  that copy.
\<close>

lemma later_copy_adds_nothing:
  assumes eq: "map r' (columns data) = map r (columns data)"
  shows "transform_data res infer (data\<lparr>rows := xs @ r # ys @ r' # zs\<rparr>)
           = transform_data res infer (data\<lparr>rows := xs @ r # ys @ zs\<rparr>)"
    and "map_sum id snd (run_pipeline res infer (data\<lparr>rows := xs @ r # ys @ r' # zs\<rparr>))
           = map_sum id snd (run_pipeline res infer (data\<lparr>rows := xs @ r # ys @ zs\<rparr>))"
proof -
  let ?A = "data\<lparr>rows := xs @ r # ys @ r' # zs\<rparr>" and ?B = "data\<lparr>rows := xs @ r # ys @ zs\<rparr>"
  show "transform_data res infer ?A = transform_data res infer ?B"
    by (simp only: transform_data_def compute_kpis_def drop_duplicates_later [OF eq])
  show "map_sum id snd (run_pipeline res infer ?A) = map_sum id snd (run_pipeline res infer ?B)"
  proof (cases "set date_columns \<subseteq> set (columns data)")
    case False
    then show ?thesis by (simp add: run_pipeline_eq)
  next
    case dates: True
    let ?cols = "foldl append_new (columns data) value_vars"
    let ?key = "\<lambda>r. map (norm_row res r) ?cols"
    from copy_row_ok [OF eq dates]
    have ok: "(\<forall>r\<in>set (rows ?A). pipeline_row_ok res r) = (\<forall>r\<in>set (rows ?B). pipeline_row_ok res r)"
      by auto
    from norm_key_agree [OF eq dates] have "?key r' \<in> set [] \<union> ?key ` set (xs @ r # ys)" by simp
    from keep_first_drop_later [OF this, of zs]
    have k: "keep_first ?key [] (xs @ r # ys @ r' # zs) = keep_first ?key [] (xs @ r # ys @ zs)"
      by simp
    have cA': "columns (norm_frame res ?A) = ?cols" and cB': "columns (norm_frame res ?B) = ?cols"
      by (simp_all add: norm_frame_def)
    have "wide_rows res infer (norm_frame res ?A)
            = map (stage_row res) (keep_first ?key [] (xs @ r # ys @ r' # zs))"
      unfolding wide_rows_norm cA' by simp
    moreover
    have "wide_rows res infer (norm_frame res ?B)
            = map (stage_row res) (keep_first ?key [] (xs @ r # ys @ zs))"
      unfolding wide_rows_norm cB' by simp
    ultimately
    have w: "wide_rows res infer (norm_frame res ?A) = wide_rows res infer (norm_frame res ?B)"
      by (simp only: k)
    have c: "columns ?A = columns data" "columns ?B = columns data" by simp_all
    show ?thesis
      unfolding run_pipeline_eq w c ok by simp
  qed
qed

lemma stage_row_copy:
  assumes eq: "map r' cols = map r cols" and ids: "set id_vars \<subseteq> set cols"
  shows "(\<forall>c\<in>set id_vars. stage_row res r' c = stage_row res r c)
       \<and> (\<forall>v\<in>set value_vars. stage_row res r' v = stage_row res r v)"
proof -
  from eq have raw: "r' c = r c" if "c \<in> set cols" for c
    using that by (simp add: map_eq_conv)
  have a: "conv_dates (to_datetime_dmy res) r' c = conv_dates (to_datetime_dmy res) r c"
    if "c \<in> set id_vars" for c
    using that ids raw by (simp add: conv_dates_def subset_iff)
  have b: "stage_row res r' v = stage_row res r v" if "v \<in> set value_vars" for v
    unfolding stage_row_def
    using a date_columns_id_vars that by (intro with_kpis_cong) auto
  from a b show ?thesis by (simp add: stage_row_id)
qed

lemma year_of_first_cong:
  assumes "\<And>c. c \<in> set date_columns \<Longrightarrow> f c = f' c" and "v \<in> set value_vars"
  shows "year_of_first f v = year_of_first f' v"
proof -
  have "f ''FechaAprobacion'' = f' ''FechaAprobacion''" "f ''FechaVigencia'' = f' ''FechaVigencia''"
    "f ''FechaElegibilidad'' = f' ''FechaElegibilidad''"
    "f ''FechadePrimerDesembolso'' = f' ''FechadePrimerDesembolso''"
    by (rule assms(1), simp add: date_columns_def)+
  with value_vars_cases [OF assms(2)] show ?thesis
    by (elim disjE) (simp_all only: year_of_first_value_vars)
qed

lemma long_row_cong_first:
  "(\<And>c. c \<in> set id_vars \<Longrightarrow> w c = w' c) \<Longrightarrow> w v = w' v \<Longrightarrow>
   year_of_first f v = year_of_first f' v \<Longrightarrow> long_row f w v = long_row f' w' v"
  by (rule ext) (simp add: long_row_def)

lemma long_rows_subset:
  assumes run: "run_pipeline res infer data = Inr (d, long)"
    and run2: "run_pipeline res infer data2 = Inr (d2, long2)"
    and keys: "(\<lambda>r. map r (columns data)) ` set (rows data2)
                 \<subseteq> (\<lambda>r. map r (columns data)) ` set (rows data)"
    and first: "map (hd (rows data2)) (columns data) = map (hd (rows data)) (columns data)"
  shows "set (rows long2) \<subseteq> set (rows long)"
proof
  fix x assume "x \<in> set (rows long2)"
  from pipeline_rows_sound [OF run2 this]
  obtain r2 v n where r2: "r2 \<in> set (rows data2)" and v: "v \<in> set value_vars"
    and n: "stage_row res r2 v = Num n" "0 \<le> n"
    and x: "x = project output_columns
                  (long_row (stage_row res (hd (rows data2))) (stage_row res r2) v)"
    by (elim bexE exE conjE)
  from run_pipeline_columns [OF run] have ids: "set id_vars \<subseteq> set (columns data)" by simp
  from r2 keys obtain r where r: "r \<in> set (rows data)"
    and eq: "map r2 (columns data) = map r (columns data)"
    by auto
  note row = stage_row_copy [OF eq ids, of res]
  note head = stage_row_copy [OF first ids, of res]
  from row v n have n': "stage_row res r v = Num n" by simp
  have "year_of_first (stage_row res (hd (rows data2))) v
      = year_of_first (stage_row res (hd (rows data))) v"
    using head date_columns_id_vars v by (intro year_of_first_cong) auto
  with row v
  have "long_row (stage_row res (hd (rows data2))) (stage_row res r2) v
      = long_row (stage_row res (hd (rows data))) (stage_row res r) v"
    by (intro long_row_cong_first) auto
  with x pipeline_rows_complete [OF run r v n' n(2)]
  show "x \<in> set (rows long)" by simp
qed

text \<open>
  The long table, as a set of rows, depends on the table read through the set of its
  rows and through its first row, from which the years are taken: two tables with the
  same columns, the same rows up to order and repetition, and the same first row give the
  same set.
\<close>

lemma long_table_rows_and_first:
  assumes run: "run_pipeline res infer data = Inr (d, long)"
    and same: "columns data2 = columns data"
    and keys: "(\<lambda>r. map r (columns data)) ` set (rows data2)
                 = (\<lambda>r. map r (columns data)) ` set (rows data)"
    and first: "map (hd (rows data2)) (columns data) = map (hd (rows data)) (columns data)"
  shows "\<exists>d2 long2. run_pipeline res infer data2 = Inr (d2, long2)
           \<and> set (records long2) = set (records long)"
proof -
  note cols = run_pipeline_columns [OF run]
  from cols date_columns_id_vars have dates: "set date_columns \<subseteq> set (columns data)" by blast
  have "\<forall>r2\<in>set (rows data2). pipeline_row_ok res r2"
  proof
    fix r2 assume "r2 \<in> set (rows data2)"
    moreover from keys
    have "(\<lambda>r. map r (columns data)) ` set (rows data2)
            \<subseteq> (\<lambda>r. map r (columns data)) ` set (rows data)"
      by simp
    ultimately obtain r where r: "r \<in> set (rows data)"
      and eq: "map r2 (columns data) = map r (columns data)"
      by auto
    from copy_row_ok [OF eq dates, of res] run_pipeline_rows_ok [OF run] r
    show "pipeline_row_ok res r2" by simp
  qed
  with cols same obtain d2 long2 where run2: "run_pipeline res infer data2 = Inr (d2, long2)"
    by (simp add: run_pipeline_ok)
  from keys first
  have "set (rows long2) \<subseteq> set (rows long)"
    by (intro long_rows_subset [OF run run2]) simp_all
  moreover from keys first same
  have "set (rows long) \<subseteq> set (rows long2)"
    by (intro long_rows_subset [OF run2 run]) simp_all
  ultimately have "set (rows long2) = set (rows long)" by (rule equalityI)
  moreover have "columns long2 = columns long"
    by (simp add: run_pipeline_result(2) [OF run] run_pipeline_result(2) [OF run2])
  ultimately have "set (records long2) = set (records long)"
    by (simp add: records_def)
  with run2 show ?thesis by blast
qed

definition repeated_first_table :: dataframe where
  \<comment> \<open>\<open>two_stage_table\<close> with a second copy of its first row at the end.\<close>
  "repeated_first_table = csv_frame
     [[''P1'', ''1'', ''AR'', ''ok'', ''a'', ''s'', ''ss'',
       ''10/01/2020'', ''10/04/2020'', '''', '''', ''''],
      [''P2'', ''1'', ''AR'', ''ok'', ''a'', ''s'', ''ss'',
       ''10/01/2021'', ''15/03/2021'', '''', '''', ''''],
      [''P1'', ''1'', ''AR'', ''ok'', ''a'', ''s'', ''ss'',
       ''10/01/2020'', ''10/04/2020'', '''', '''', '''']]"

definition first_copy_removed_table :: dataframe where
  \<comment> \<open>\<open>repeated_first_table\<close> without the first of the two equal rows.\<close>
  "first_copy_removed_table = csv_frame
     [[''P2'', ''1'', ''AR'', ''ok'', ''a'', ''s'', ''ss'',
       ''10/01/2021'', ''15/03/2021'', '''', '''', ''''],
      [''P1'', ''1'', ''AR'', ''ok'', ''a'', ''s'', ''ss'',
       ''10/01/2020'', ''10/04/2020'', '''', '''', '''']]"

text \<open>
  C5. \<^verbatim>\<open>drop_duplicates\<close> collapses equal rows to the first of them, and the table with the
  two equal rows gives the long table of the table without the later copy
  (\<open>two_stage_table\<close>). With only the other copy left, the same two stages give other
  observations: the first row is now stage P2, and every year is read from the first row.
\<close>

theorem first_copy_removed_changes_years:
  "long_records (run_pipeline Nanosecond no_infer repeated_first_table) =
     Inr [[Text ''P1'', Text ''KPI Aprobacion'', Num 3, Num 2020, Text ''1'',
           Text ''AR'', Text ''ok'', Text ''a'', Text ''s'', Text ''ss''],
          [Text ''P2'', Text ''KPI Aprobacion'', Num 2, Num 2020, Text ''1'',
           Text ''AR'', Text ''ok'', Text ''a'', Text ''s'', Text ''ss'']]
   \<and> long_records (run_pipeline Nanosecond no_infer two_stage_table) =
       long_records (run_pipeline Nanosecond no_infer repeated_first_table)
   \<and> long_records (run_pipeline Nanosecond no_infer first_copy_removed_table) =
     Inr [[Text ''P2'', Text ''KPI Aprobacion'', Num 2, Num 2021, Text ''1'',
           Text ''AR'', Text ''ok'', Text ''a'', Text ''s'', Text ''ss''],
          [Text ''P1'', Text ''KPI Aprobacion'', Num 3, Num 2021, Text ''1'',
           Text ''AR'', Text ''ok'', Text ''a'', Text ''s'', Text ''ss'']]
   \<and> map_sum id set (long_records (run_pipeline Nanosecond no_infer first_copy_removed_table))
       \<noteq> map_sum id set (long_records (run_pipeline Nanosecond no_infer repeated_first_table))"
proof -
  have a: "long_records (run_pipeline Nanosecond no_infer repeated_first_table) =
     Inr [[Text ''P1'', Text ''KPI Aprobacion'', Num 3, Num 2020, Text ''1'',
           Text ''AR'', Text ''ok'', Text ''a'', Text ''s'', Text ''ss''],
          [Text ''P2'', Text ''KPI Aprobacion'', Num 2, Num 2020, Text ''1'',
           Text ''AR'', Text ''ok'', Text ''a'', Text ''s'', Text ''ss'']]"
    by code_simp
  have b: "long_records (run_pipeline Nanosecond no_infer two_stage_table) =
     Inr [[Text ''P1'', Text ''KPI Aprobacion'', Num 3, Num 2020, Text ''1'',
           Text ''AR'', Text ''ok'', Text ''a'', Text ''s'', Text ''ss''],
          [Text ''P2'', Text ''KPI Aprobacion'', Num 2, Num 2020, Text ''1'',
           Text ''AR'', Text ''ok'', Text ''a'', Text ''s'', Text ''ss'']]"
    by code_simp
  have c: "long_records (run_pipeline Nanosecond no_infer first_copy_removed_table) =
     Inr [[Text ''P2'', Text ''KPI Aprobacion'', Num 2, Num 2021, Text ''1'',
           Text ''AR'', Text ''ok'', Text ''a'', Text ''s'', Text ''ss''],
          [Text ''P1'', Text ''KPI Aprobacion'', Num 3, Num 2021, Text ''1'',
           Text ''AR'', Text ''ok'', Text ''a'', Text ''s'', Text ''ss'']]"
    by code_simp
  have d: "map_sum id set (long_records (run_pipeline Nanosecond no_infer first_copy_removed_table))
       \<noteq> map_sum id set (long_records (run_pipeline Nanosecond no_infer repeated_first_table))"
    unfolding a c by (simp add: doubleton_eq_iff)
  from a b c d show ?thesis by simp
qed

end
